theory Spec2Isabelle
  imports Main "HOL-Library.Log_Nat" "HOL-Library.Char_ord" "HOL-Library.List_Lexorder"
begin

section \<open>JavaScript numbers\<close>

text \<open>
  The ledger computes with JavaScript numbers: \<^verbatim>\<open>amount: number\<close>,
  \<^verbatim>\<open>parseFloat(wallet.balance) + amount\<close>, \<^verbatim>\<open>.toFixed(2)\<close>. A finite
  number is a rational, so \<open>number\<close> is \<open>rat\<close>; every arithmetic result is rounded to
  the nearest binary64 value (53-bit significand, ties to even, least exponent \<open>-1074\<close>)
  by \<open>rnd\<close>. Overflow to \<open>Infinity\<close> is left out: every operand below is at most a
  stored \<open>decimal(12,2)\<close> value or an amount that has passed a comparison with one.
  An amount ranges over all rationals, the binary64 values among them; the amounts of the
  examples are binary fractions or \<open>number_of_cents\<close> of a count of hundredths.
\<close>

type_synonym number = rat

text \<open>Nearest integer, ties to the even one.\<close>

definition rne :: "rat \<Rightarrow> int" where
  "rne x = (let f = \<lfloor>x\<rfloor>; d = x - of_int f in
     if d < 1/2 then f else if 1/2 < d then f + 1 else if even f then f else f + 1)"

text \<open>\<open>ilog2 x\<close> is \<open>\<lfloor>log\<^sub>2 x\<rfloor>\<close> for \<open>x > 0\<close>, computed on integers.\<close>

definition ilog2 :: "rat \<Rightarrow> int" where
  "ilog2 x = (if 1 \<le> x then bitlen \<lfloor>x\<rfloor> - 1 else - bitlen (\<lceil>1 / x\<rceil> - 1))"

text \<open>The exponent of the last significand bit of the binary64 values around \<open>x\<close>.\<close>

definition ulp_exp :: "rat \<Rightarrow> int" where
  "ulp_exp x = max (ilog2 \<bar>x\<bar> - 52) (- 1074)"

definition rnd :: "rat \<Rightarrow> number" where
  "rnd x = (if x = 0 then 0 else of_int (rne (x / 2 powi ulp_exp x)) * 2 powi ulp_exp x)"

text \<open>The operators \<^verbatim>\<open>+\<close> and \<^verbatim>\<open>-\<close> on numbers.\<close>

definition fadd :: "number \<Rightarrow> number \<Rightarrow> number" where
  "fadd x y = rnd (x + y)"

definition fsub :: "number \<Rightarrow> number \<Rightarrow> number" where
  "fsub x y = rnd (x - y)"

text \<open>
  A \<open>decimal(12,2)\<close> column holds a whole number of hundredths; the driver hands it to
  the program as a string such as \<^verbatim>\<open>"500.00"\<close>. The model keeps the count of hundredths
  (\<open>50000\<close>). \<open>parseFloat\<close> of that string is the binary64 value nearest to the decimal
  it denotes; \<open>number_of_cents\<close> is the same value seen as a number a caller passes
  (the JSON literal \<^verbatim>\<open>12.34\<close> is \<open>number_of_cents 1234\<close>).
\<close>

type_synonym decimal = int

definition decimal_12_2 :: "decimal \<Rightarrow> bool" where
  "decimal_12_2 c \<longleftrightarrow> \<bar>c\<bar> < 10 ^ 12"

definition parseFloat :: "decimal \<Rightarrow> number" where
  "parseFloat c = rnd (of_int c / 100)"

definition number_of_cents :: "int \<Rightarrow> number" where
  "number_of_cents k = rnd (of_int k / 100)"

text \<open>
  \<^verbatim>\<open>x.toFixed(2)\<close>, as the count of hundredths it prints: the integer \<open>n\<close> with
  \<open>n / 100\<close> nearest to \<open>x\<close>, the larger one on a tie, computed on the magnitude and
  the sign put back. (From \<open>10\<^sup>2\<^sup>1\<close> on JavaScript prints an exponent form; such a
  value is far outside the column's range either way.)
\<close>

definition toFixed2 :: "number \<Rightarrow> decimal" where
  "toFixed2 x = (if x < 0 then - \<lfloor>- x * 100 + 1/2\<rfloor> else \<lfloor>x * 100 + 1/2\<rfloor>)"

section \<open>Decimal strings\<close>

definition digit_char :: "nat \<Rightarrow> char" where
  "digit_char d = ''0123456789'' ! d"

fun digits :: "nat \<Rightarrow> string" where
  "digits n = (if n < 10 then [digit_char n] else digits (n div 10) @ [digit_char (n mod 10)])"

declare digits.simps [simp del]

text \<open>Hundredths printed with two fractional digits: \<open>100000\<close> is \<^verbatim>\<open>1000.00\<close>.\<close>

definition cents_str :: "nat \<Rightarrow> string" where
  "cents_str n = digits (n div 100) @ ''.'' @ [digit_char (n mod 100 div 10), digit_char (n mod 10)]"

text \<open>The string of a \<open>decimal(12,2)\<close> column, as in \<^verbatim>\<open>${wallet.transactionLimit}\<close>.\<close>

definition decimal_str :: "decimal \<Rightarrow> string" where
  "decimal_str c = (if c < 0 then ''-'' else '''') @ cents_str (nat \<bar>c\<bar>)"

text \<open>The string \<^verbatim>\<open>x.toFixed(2)\<close>; a negative \<open>x\<close> keeps its sign even when it prints as zero.\<close>

definition toFixed2_str :: "number \<Rightarrow> string" where
  "toFixed2_str x = (if x < 0 then ''-'' else '''') @ cents_str (nat \<bar>toFixed2 x\<bar>)"

section \<open>Errors\<close>

text \<open>
  The program throws plain \<^verbatim>\<open>Error\<close> objects, which carry a message, and one class of
  its own, \<^verbatim>\<open>InsufficientFundsException(availableBalance, requestedAmount, walletId)\<close>,
  whose message prints the two numbers with \<^verbatim>\<open>toFixed(2)\<close> (in the plain form, which
  JavaScript leaves for an exponent form from \<open>10\<^sup>2\<^sup>1\<close> on).
\<close>

datatype error =
    Error string
  | InsufficientFundsException number number string

fun message :: "error \<Rightarrow> string" where
  "message (Error m) = m"
| "message (InsufficientFundsException availableBalance requestedAmount walletId) =
     ''Insufficient funds: Available $'' @ toFixed2_str availableBalance @
     '', Required $'' @ toFixed2_str requestedAmount"

section \<open>The store\<close>

record wallet =
  userId :: string
  balance :: decimal
  walletType :: string
  transactionLimit :: decimal

datatype tx_type = deposit_t | transfer_out | transfer_in

datatype tx_status = pending | success | failed

text \<open>
  \<open>amount\<close> is the number handed to the insert (\<^verbatim>\<open>amount.toString()\<close>). The
  \<open>decimal(12,2)\<close> column of the amount is not modelled: a record keeps the number as
  it was handed in, not rounded to two places, and an insert is refused only where the
  faults say so, not for an amount outside the column's range.
\<close>

record insertTransaction =
  walletId :: string
  amount :: number
  txType :: tx_type
  paymentMode :: string
  status :: tx_status
  description :: "string option"
  recipientWalletId :: "string option"
  recipientUserId :: "string option"

record transaction = insertTransaction +
  txId :: nat
  errorMessage :: "string option"

text \<open>
  What a write to the store does when it is reached: it goes through, the database
  rejects it (nothing is written), or the database write goes through and the file
  write of the observer called after it fails (\<^verbatim>\<open>WalletSerializer.serializeWallet\<close>,
  which rethrows; \<^verbatim>\<open>TransactionLogger.logTransaction\<close>, which does not).
\<close>

datatype fault = NoFault | DbFault string | ObserverFault string

text \<open>
  A row written by the database: an inserted wallet or transaction, a balance set on a
  wallet, a status (with the error message handed over, if any) set on a transaction.
\<close>

datatype db_write =
    InsertWallet string wallet
  | SetBalance string decimal
  | InsertTransaction transaction
  | SetStatus nat tx_status "string option"

text \<open>
  The database and what goes with it: the two tables (wallets by primary key;
  transactions in insertion order, a row's id being its position), the factory's
  counter, the faults that the coming writes will meet, one entry per write, none
  left meaning no fault, and the journal of the rows written so far, oldest first,
  which tells in what order an operation has made its writes.
\<close>

record store =
  wallets :: "string \<rightharpoonup> wallet"
  transactions :: "transaction list"
  walletCounter :: nat
  faults :: "fault list"
  journal :: "db_write list"

definition next_fault :: "store \<Rightarrow> fault \<times> store" where
  "next_fault st = ((case faults st of [] \<Rightarrow> NoFault | f # _ \<Rightarrow> f), st\<lparr>faults := tl (faults st)\<rparr>)"

text \<open>
  The process: the store and the module-level lock table \<^verbatim>\<open>walletLocks\<close>
  (wallet id to mutex, \<open>True\<close> when held).
\<close>

record process =
  db :: store
  walletLocks :: "string \<rightharpoonup> bool"

subsection \<open>Wallet provisioning\<close>

record walletConfig =
  cfg_walletType :: string
  cfg_transactionLimit :: decimal

text \<open>\<^verbatim>\<open>WalletFactory.createWallet\<close>: the counter goes up before the switch.\<close>

definition WalletFactory_createWallet :: "store \<Rightarrow> string \<Rightarrow> (error + walletConfig) \<times> store" where
  "WalletFactory_createWallet st type =
     (let st1 = st\<lparr>walletCounter := walletCounter st + 1\<rparr> in
      if type = ''Basic'' then
        (Inr \<lparr>cfg_walletType = ''Basic'', cfg_transactionLimit = 100000\<rparr>, st1)
      else if type = ''Premium'' then
        (Inr \<lparr>cfg_walletType = ''Premium'', cfg_transactionLimit = 1000000\<rparr>, st1)
      else (Inl (Error (''Unknown wallet type: '' @ type)), st1))"

text \<open>
  \<^verbatim>\<open>DatabaseStorage.createWallet\<close>. \<open>newId\<close> is the id the database draws
  (\<^verbatim>\<open>gen_random_uuid()\<close>); a primary key already in use is rejected.
\<close>

definition createWallet :: "store \<Rightarrow> string \<Rightarrow> string \<Rightarrow> string \<Rightarrow> (error + wallet) \<times> store" where
  "createWallet st newId userId' walletType' =
     (case WalletFactory_createWallet st walletType' of
        (Inl e, st1) \<Rightarrow> (Inl e, st1)
      | (Inr config, st1) \<Rightarrow>
          (case next_fault st1 of
             (DbFault m, st2) \<Rightarrow> (Inl (Error m), st2)
           | (f, st2) \<Rightarrow>
               if wallets st2 newId \<noteq> None then
                 (Inl (Error ''duplicate key value violates unique constraint''), st2)
               else
                 let wallet = \<lparr>userId = userId', balance = 0,
                               walletType = cfg_walletType config,
                               transactionLimit = cfg_transactionLimit config\<rparr>;
                     st3 = st2\<lparr>wallets := (wallets st2)(newId \<mapsto> wallet),
                               journal := journal st2 @ [InsertWallet newId wallet]\<rparr>
                 in (case f of
                       ObserverFault m \<Rightarrow> (Inl (Error m), st3)
                     | _ \<Rightarrow> (Inr wallet, st3))))"

subsection \<open>Single writes\<close>

text \<open>
  \<^verbatim>\<open>updateWalletBalance\<close>: one \<^verbatim>\<open>UPDATE\<close> of the balance column, then the
  serializer. A value outside \<open>decimal(12,2)\<close> is a numeric overflow of the database;
  when no row matches, the serializer reads \<^verbatim>\<open>wallet.id\<close> of \<^verbatim>\<open>undefined\<close> and
  throws.
\<close>

definition updateWalletBalance :: "store \<Rightarrow> string \<Rightarrow> decimal \<Rightarrow> (error + wallet) \<times> store" where
  "updateWalletBalance st walletId' newBalance =
     (case next_fault st of
        (DbFault m, st1) \<Rightarrow> (Inl (Error m), st1)
      | (f, st1) \<Rightarrow>
          if \<not> decimal_12_2 newBalance then (Inl (Error ''numeric field overflow''), st1)
          else (case wallets st1 walletId' of
                  None \<Rightarrow> (Inl (Error ''Cannot read properties of undefined (reading 'id')''), st1)
                | Some w \<Rightarrow>
                    let wallet = w\<lparr>balance := newBalance\<rparr>;
                        st2 = st1\<lparr>wallets := (wallets st1)(walletId' \<mapsto> wallet),
                                  journal := journal st1 @ [SetBalance walletId' newBalance]\<rparr>
                    in (case f of
                          ObserverFault m \<Rightarrow> (Inl (Error m), st2)
                        | _ \<Rightarrow> (Inr wallet, st2))))"

text \<open>
  \<^verbatim>\<open>TransactionLogger.logTransaction\<close>: the whole body is one \<^verbatim>\<open>try\<close> block that
  appends a line to the log file of the day, and its \<^verbatim>\<open>catch\<close> prints the error and does
  not throw (\<^verbatim>\<open>// Don't throw - logging failures shouldn't break the transaction\<close>).
  The fault of the write tells whether the file write fails. The result is the error
  the call raises, if any; the log file is not part of the store.
\<close>

definition logTransaction :: "fault \<Rightarrow> transaction \<Rightarrow> error option" where
  "logTransaction f data =
     (case (case f of ObserverFault m \<Rightarrow> Inl (Error m) | _ \<Rightarrow> Inr ()) of
        Inl error \<Rightarrow> None
      | Inr _ \<Rightarrow> None)"

text \<open>
  \<^verbatim>\<open>createTransaction\<close>: one \<^verbatim>\<open>INSERT\<close>, then the logger, whose own failure
  is not raised.
\<close>

definition createTransaction :: "store \<Rightarrow> insertTransaction \<Rightarrow> (error + transaction) \<times> store" where
  "createTransaction st ins =
     (case next_fault st of
        (DbFault m, st1) \<Rightarrow> (Inl (Error m), st1)
      | (f, st1) \<Rightarrow>
          let newTransaction =
                \<lparr>walletId = walletId ins, amount = amount ins, txType = txType ins,
                 paymentMode = paymentMode ins, status = status ins,
                 description = description ins,
                 recipientWalletId = recipientWalletId ins,
                 recipientUserId = recipientUserId ins,
                 txId = length (transactions st1), errorMessage = None\<rparr>;
              st2 = st1\<lparr>transactions := transactions st1 @ [newTransaction],
                        journal := journal st1 @ [InsertTransaction newTransaction]\<rparr>
          in (case logTransaction f newTransaction of
                Some e \<Rightarrow> (Inl e, st2)
              | None \<Rightarrow> (Inr newTransaction, st2)))"

text \<open>
  \<^verbatim>\<open>updateTransactionStatus\<close>: an \<^verbatim>\<open>undefined\<close> error message leaves the column
  as it is; when no row matches, the result is \<^verbatim>\<open>undefined\<close> and nothing is thrown.
\<close>

definition updateTransactionStatus ::
  "store \<Rightarrow> nat \<Rightarrow> tx_status \<Rightarrow> string option \<Rightarrow> (error + transaction option) \<times> store" where
  "updateTransactionStatus st transactionId status' errorMessage' =
     (case next_fault st of
        (DbFault m, st1) \<Rightarrow> (Inl (Error m), st1)
      | (_, st1) \<Rightarrow>
          if transactionId < length (transactions st1) then
            let old = transactions st1 ! transactionId;
                transaction = old\<lparr>status := status',
                   errorMessage := (case errorMessage' of None \<Rightarrow> errorMessage old
                                    | Some m \<Rightarrow> Some m)\<rparr>
            in (Inr (Some transaction),
                st1\<lparr>transactions := (transactions st1)[transactionId := transaction],
                    journal := journal st1 @ [SetStatus transactionId status' errorMessage']\<rparr>)
          else (Inr None, st1))"

subsection \<open>The lock table\<close>

text \<open>\<^verbatim>\<open>getWalletLock\<close>: the mutex of a wallet id, created free on first use.\<close>

definition getWalletLock :: "process \<Rightarrow> string \<Rightarrow> process" where
  "getWalletLock p walletId' =
     (if walletLocks p walletId' = None
      then p\<lparr>walletLocks := (walletLocks p)(walletId' \<mapsto> False)\<rparr> else p)"

text \<open>
  \<^verbatim>\<open>mutex.runExclusive(body)\<close> as one operation sees it when nothing else runs: a
  free mutex is taken, the body runs, the mutex is released whatever the body returned
  or threw. The mutex is not reentrant: waiting for a mutex that is held, with nobody
  left to release it, never ends, and \<open>None\<close> is the call that never returns.
\<close>

definition runExclusive ::
  "string \<Rightarrow> (process \<Rightarrow> ('a \<times> process) option) \<Rightarrow> process \<Rightarrow> ('a \<times> process) option" where
  "runExclusive lock body p =
     (if walletLocks p lock = Some True then None
      else (case body (p\<lparr>walletLocks := (walletLocks p)(lock \<mapsto> True)\<rparr>) of
              None \<Rightarrow> None
            | Some (r, p1) \<Rightarrow> Some (r, p1\<lparr>walletLocks := (walletLocks p1)(lock \<mapsto> False)\<rparr>)))"

text \<open>A body that only works on the store, and returns.\<close>

definition on_store :: "(store \<Rightarrow> 'a \<times> store) \<Rightarrow> process \<Rightarrow> ('a \<times> process) option" where
  "on_store f p = (case f (db p) of (r, st) \<Rightarrow> Some (r, p\<lparr>db := st\<rparr>))"

subsection \<open>Deposit\<close>

text \<open>\<^verbatim>\<open>(parseFloat(wallet.balance) + amount).toFixed(2)\<close>\<close>

definition newBalance :: "wallet \<Rightarrow> number \<Rightarrow> decimal" where
  "newBalance wallet amount' = toFixed2 (fadd (parseFloat (balance wallet)) amount')"

text \<open>
  The handler both operations end with: \<^verbatim>\<open>catch (error) { await
  this.updateTransactionStatus(id, 'failed', error.message); throw error; }\<close>.
  When the status write itself throws, that is the error which leaves the handler.
\<close>

definition catch_markFailed :: "store \<Rightarrow> nat \<Rightarrow> error \<Rightarrow> (error + transaction option) \<times> store" where
  "catch_markFailed st transactionId err =
     (case updateTransactionStatus st transactionId failed (Some (message err)) of
        (Inl e, st1) \<Rightarrow> (Inl e, st1)
      | (Inr _, st1) \<Rightarrow> (Inl err, st1))"

text \<open>The \<^verbatim>\<open>try\<close> block of \<^verbatim>\<open>deposit\<close>.\<close>

definition deposit_try ::
  "store \<Rightarrow> string \<Rightarrow> wallet \<Rightarrow> number \<Rightarrow> transaction \<Rightarrow> (error + transaction option) \<times> store" where
  "deposit_try st walletId' wallet amount' transaction =
     (case updateWalletBalance st walletId' (newBalance wallet amount') of
        (Inl e, st1) \<Rightarrow> (Inl e, st1)
      | (Inr _, st1) \<Rightarrow> updateTransactionStatus st1 (txId transaction) success None)"

text \<open>The function \<^verbatim>\<open>deposit\<close> runs under the wallet's mutex.\<close>

definition deposit_locked ::
  "store \<Rightarrow> string \<Rightarrow> number \<Rightarrow> string \<Rightarrow> string option \<Rightarrow> (error + transaction option) \<times> store" where
  "deposit_locked st walletId' amount' paymentMode' description' =
     (case wallets st walletId' of
        None \<Rightarrow> (Inl (Error ''Wallet not found''), st)
      | Some wallet \<Rightarrow>
          if amount' > parseFloat (transactionLimit wallet) then
            (Inl (Error (''Amount exceeds transaction limit of $'' @
                         decimal_str (transactionLimit wallet))), st)
          else
            (case createTransaction st
                    \<lparr>walletId = walletId', amount = amount', txType = deposit_t,
                     paymentMode = paymentMode', status = pending,
                     description = description',
                     recipientWalletId = None, recipientUserId = None\<rparr> of
               (Inl e, st1) \<Rightarrow> (Inl e, st1)
             | (Inr transaction, st1) \<Rightarrow>
                 (case deposit_try st1 walletId' wallet amount' transaction of
                    (Inr r, st2) \<Rightarrow> (Inr r, st2)
                  | (Inl err, st2) \<Rightarrow> catch_markFailed st2 (txId transaction) err)))"

definition deposit ::
  "process \<Rightarrow> string \<Rightarrow> number \<Rightarrow> string \<Rightarrow> string option \<Rightarrow>
   ((error + transaction option) \<times> process) option" where
  "deposit p walletId' amount' paymentMode' description' =
     (let lock = walletId' in
      runExclusive lock
        (on_store (\<lambda>st. deposit_locked st walletId' amount' paymentMode' description'))
        (getWalletLock p walletId'))"

subsection \<open>Transfer\<close>

text \<open>\<^verbatim>\<open>(currentBalance - amount).toFixed(2)\<close>\<close>

definition newFromBalance :: "number \<Rightarrow> number \<Rightarrow> decimal" where
  "newFromBalance currentBalance amount' = toFixed2 (fsub currentBalance amount')"

text \<open>\<^verbatim>\<open>(parseFloat(toWallet.balance) + amount).toFixed(2)\<close>\<close>

definition newToBalance :: "wallet \<Rightarrow> number \<Rightarrow> decimal" where
  "newToBalance toWallet amount' = toFixed2 (fadd (parseFloat (balance toWallet)) amount')"

text \<open>The \<^verbatim>\<open>try\<close> block of \<^verbatim>\<open>transfer\<close>.\<close>

definition transfer_try ::
  "store \<Rightarrow> string \<Rightarrow> string \<Rightarrow> number \<Rightarrow> wallet \<Rightarrow> number \<Rightarrow> string option \<Rightarrow> transaction \<Rightarrow>
   (error + transaction option) \<times> store" where
  "transfer_try st fromWalletId toWalletId currentBalance toWallet amount' description' outTransaction =
     (case updateWalletBalance st fromWalletId (newFromBalance currentBalance amount') of
        (Inl e, st1) \<Rightarrow> (Inl e, st1)
      | (Inr _, st1) \<Rightarrow>
     (case updateWalletBalance st1 toWalletId (newToBalance toWallet amount') of
        (Inl e, st2) \<Rightarrow> (Inl e, st2)
      | (Inr _, st2) \<Rightarrow>
     (case createTransaction st2
             \<lparr>walletId = toWalletId, amount = amount', txType = transfer_in,
              paymentMode = ''WalletBalance'', status = success,
              description = description',
              recipientWalletId = Some fromWalletId, recipientUserId = None\<rparr> of
        (Inl e, st3) \<Rightarrow> (Inl e, st3)
      | (Inr _, st3) \<Rightarrow> updateTransactionStatus st3 (txId outTransaction) success None)))"

text \<open>The function \<^verbatim>\<open>transfer\<close> runs under the two mutexes.\<close>

definition transfer_locked ::
  "store \<Rightarrow> string \<Rightarrow> string \<Rightarrow> string \<Rightarrow> number \<Rightarrow> string option \<Rightarrow>
   (error + transaction option) \<times> store" where
  "transfer_locked st fromWalletId toWalletId toUserId amount' description' =
     (case wallets st fromWalletId of
        None \<Rightarrow> (Inl (Error ''Wallet not found''), st)
      | Some fromWallet \<Rightarrow>
     (case wallets st toWalletId of
        None \<Rightarrow> (Inl (Error ''Wallet not found''), st)
      | Some toWallet \<Rightarrow>
          let currentBalance = parseFloat (balance fromWallet) in
          if currentBalance < amount' then
            (Inl (InsufficientFundsException currentBalance amount' fromWalletId), st)
          else if amount' > parseFloat (transactionLimit fromWallet) then
            (Inl (Error (''Amount exceeds transaction limit of $'' @
                         decimal_str (transactionLimit fromWallet))), st)
          else
            (case createTransaction st
                    \<lparr>walletId = fromWalletId, amount = amount', txType = transfer_out,
                     paymentMode = ''WalletBalance'', status = pending,
                     description = description',
                     recipientWalletId = Some toWalletId,
                     recipientUserId = Some toUserId\<rparr> of
               (Inl e, st1) \<Rightarrow> (Inl e, st1)
             | (Inr outTransaction, st1) \<Rightarrow>
                 (case transfer_try st1 fromWalletId toWalletId currentBalance toWallet
                         amount' description' outTransaction of
                    (Inr r, st2) \<Rightarrow> (Inr r, st2)
                  | (Inl err, st2) \<Rightarrow> catch_markFailed st2 (txId outTransaction) err))))"

text \<open>
  \<^verbatim>\<open>[fromWalletId, toWalletId].sort()\<close> orders the two ids as strings; the first
  mutex is taken, then the second inside it.
\<close>

definition transfer ::
  "process \<Rightarrow> string \<Rightarrow> string \<Rightarrow> string \<Rightarrow> number \<Rightarrow> string option \<Rightarrow>
   ((error + transaction option) \<times> process) option" where
  "transfer p fromWalletId toWalletId toUserId amount' description' =
     (let locks = sort [fromWalletId, toWalletId];
          lock1 = locks ! 0;
          lock2 = locks ! 1
      in runExclusive lock1
           (runExclusive lock2
              (on_store (\<lambda>st. transfer_locked st fromWalletId toWalletId toUserId amount' description')))
           (getWalletLock (getWalletLock p lock1) lock2))"

subsection \<open>Runs of operations\<close>

datatype operation =
    CreateWallet string string string
  | Deposit string number string "string option"
  | Transfer string string string number "string option"

fun apply_op :: "process \<Rightarrow> operation \<Rightarrow> process option" where
  "apply_op p (CreateWallet newId u t) = Some (p\<lparr>db := snd (createWallet (db p) newId u t)\<rparr>)"
| "apply_op p (Deposit w a m d) = map_option snd (deposit p w a m d)"
| "apply_op p (Transfer f t u a d) = map_option snd (transfer p f t u a d)"

fun run :: "process \<Rightarrow> operation list \<Rightarrow> process option" where
  "run p [] = Some p"
| "run p (x # xs) = (case apply_op p x of None \<Rightarrow> None | Some p1 \<Rightarrow> run p1 xs)"

text \<open>The preconditions the callers keep: a positive amount, two different wallets.\<close>

fun valid_op :: "operation \<Rightarrow> bool" where
  "valid_op (CreateWallet newId u t) = True"
| "valid_op (Deposit w a m d) = (0 < a)"
| "valid_op (Transfer f t u a d) = (0 < a \<and> f \<noteq> t)"

text \<open>A process that has served nothing yet, with the faults its writes will meet.\<close>

definition init :: "fault list \<Rightarrow> process" where
  "init fs = \<lparr>db = \<lparr>wallets = Map.empty, transactions = [], walletCounter = 0, faults = fs,
                    journal = []\<rparr>,
              walletLocks = Map.empty\<rparr>"

text \<open>No stored balance is below zero.\<close>

definition nonneg :: "store \<Rightarrow> bool" where
  "nonneg st \<longleftrightarrow> (\<forall>w wl. wallets st w = Some wl \<longrightarrow> 0 \<le> balance wl)"

text \<open>No operation is under way: no mutex is held.\<close>

definition idle :: "process \<Rightarrow> bool" where
  "idle p \<longleftrightarrow> (\<forall>l. walletLocks p l \<noteq> Some True)"

subsection \<open>What the routes answer to an error\<close>

text \<open>
  The \<^verbatim>\<open>catch\<close> blocks of \<^verbatim>\<open>/api/deposit\<close> and \<^verbatim>\<open>/api/transfer\<close>, the callers of
  the two operations: the HTTP status and the message of the answer.
\<close>

definition deposit_route_catch :: "error \<Rightarrow> nat \<times> string" where
  "deposit_route_catch e =
     (500, if message e = [] then ''Failed to process deposit'' else message e)"

definition transfer_route_catch :: "error \<Rightarrow> nat \<times> string" where
  "transfer_route_catch e =
     (case e of
        InsufficientFundsException availableBalance requestedAmount walletId' \<Rightarrow> (400, message e)
      | Error m \<Rightarrow> (500, if m = [] then ''Failed to process transfer'' else m))"

subsection \<open>Two transfers at once\<close>

text \<open>
  What \<^verbatim>\<open>transfer\<close> does with the two mutexes, one step at a time, so that two calls
  can be interleaved: wait for the first mutex of \<^verbatim>\<open>[from, to].sort()\<close> and take it,
  wait for the second and take it, run the body, release the second, release the first,
  return. The body is one step: while it runs, its call holds both mutexes.
\<close>

datatype pc = Acquire1 | Acquire2 | Body | Release2 | Release1 | Returned

record call =
  t_from :: string
  t_to :: string
  t_toUserId :: string
  t_amount :: number
  t_description :: "string option"
  t_pc :: pc
  t_result :: "(error + transaction option) option"

definition lock1 :: "call \<Rightarrow> string" where
  "lock1 t = sort [t_from t, t_to t] ! 0"

definition lock2 :: "call \<Rightarrow> string" where
  "lock2 t = sort [t_from t, t_to t] ! 1"

definition called :: "string \<Rightarrow> string \<Rightarrow> string \<Rightarrow> number \<Rightarrow> string option \<Rightarrow> call" where
  "called f t u a d =
     \<lparr>t_from = f, t_to = t, t_toUserId = u, t_amount = a, t_description = d,
      t_pc = Acquire1, t_result = None\<rparr>"

text \<open>The next step of a call; \<open>None\<close> when it has returned or waits for a held mutex.\<close>

definition call_step :: "call \<Rightarrow> process \<Rightarrow> (call \<times> process) option" where
  "call_step t p =
     (case t_pc t of
        Acquire1 \<Rightarrow>
          if walletLocks p (lock1 t) = Some True then None
          else Some (t\<lparr>t_pc := Acquire2\<rparr>, p\<lparr>walletLocks := (walletLocks p)(lock1 t \<mapsto> True)\<rparr>)
      | Acquire2 \<Rightarrow>
          if walletLocks p (lock2 t) = Some True then None
          else Some (t\<lparr>t_pc := Body\<rparr>, p\<lparr>walletLocks := (walletLocks p)(lock2 t \<mapsto> True)\<rparr>)
      | Body \<Rightarrow>
          (case transfer_locked (db p) (t_from t) (t_to t) (t_toUserId t) (t_amount t)
                  (t_description t) of
             (r, st) \<Rightarrow> Some (t\<lparr>t_pc := Release2, t_result := Some r\<rparr>, p\<lparr>db := st\<rparr>))
      | Release2 \<Rightarrow>
          Some (t\<lparr>t_pc := Release1\<rparr>, p\<lparr>walletLocks := (walletLocks p)(lock2 t \<mapsto> False)\<rparr>)
      | Release1 \<Rightarrow>
          Some (t\<lparr>t_pc := Returned\<rparr>, p\<lparr>walletLocks := (walletLocks p)(lock1 t \<mapsto> False)\<rparr>)
      | Returned \<Rightarrow> None)"

text \<open>Two calls over one process; the scheduler picks which one moves.\<close>

type_synonym config = "call \<times> call \<times> process"

inductive step :: "config \<Rightarrow> config \<Rightarrow> bool" where
  first: "call_step a p = Some (a', p') \<Longrightarrow> step (a, b, p) (a', b, p')"
| second: "call_step b p = Some (b', p') \<Longrightarrow> step (a, b, p) (a, b', p')"

definition both_returned :: "config \<Rightarrow> bool" where
  "both_returned c \<longleftrightarrow>
     (case c of (a, b, p) \<Rightarrow>
        t_pc a = Returned \<and> t_pc b = Returned \<and> t_result a \<noteq> None \<and> t_result b \<noteq> None)"

text \<open>Where a call holds its first mutex, where its second, and how many steps it has left.\<close>

fun holds1 :: "pc \<Rightarrow> bool" where
  "holds1 Acquire1 = False"
| "holds1 Acquire2 = True"
| "holds1 Body = True"
| "holds1 Release2 = True"
| "holds1 Release1 = True"
| "holds1 Returned = False"

fun holds2 :: "pc \<Rightarrow> bool" where
  "holds2 Body = True"
| "holds2 Release2 = True"
| "holds2 _ = False"

fun steps_left :: "pc \<Rightarrow> nat" where
  "steps_left Acquire1 = 5"
| "steps_left Acquire2 = 4"
| "steps_left Body = 3"
| "steps_left Release2 = 2"
| "steps_left Release1 = 1"
| "steps_left Returned = 0"

text \<open>
  Two calls that take the same two mutexes \<open>l1\<close>, \<open>l2\<close> in the same order: a mutex is
  held exactly when one of the calls holds it, the two never hold the first one
  together, and a call past its body has its result.
\<close>

definition lock_inv :: "string \<Rightarrow> string \<Rightarrow> config \<Rightarrow> bool" where
  "lock_inv l1 l2 c \<longleftrightarrow>
     (case c of (a, b, p) \<Rightarrow>
        lock1 a = l1 \<and> lock2 a = l2 \<and> lock1 b = l1 \<and> lock2 b = l2 \<and>
        (walletLocks p l1 = Some True) = (holds1 (t_pc a) \<or> holds1 (t_pc b)) \<and>
        (walletLocks p l2 = Some True) = (holds2 (t_pc a) \<or> holds2 (t_pc b)) \<and>
        \<not> (holds1 (t_pc a) \<and> holds1 (t_pc b)) \<and>
        (steps_left (t_pc a) \<le> 2 \<longrightarrow> t_result a \<noteq> None) \<and>
        (steps_left (t_pc b) \<le> 2 \<longrightarrow> t_result b \<noteq> None))"

text \<open>One call run on its own for \<open>n\<close> steps; \<open>None\<close> when it cannot take the next one.\<close>

fun call_run :: "nat \<Rightarrow> call \<Rightarrow> process \<Rightarrow> (call \<times> process) option" where
  "call_run 0 t p = Some (t, p)"
| "call_run (Suc n) t p =
     (case call_step t p of None \<Rightarrow> None | Some (t', p') \<Rightarrow> call_run n t' p')"

subsection \<open>A small ledger\<close>

text \<open>
  Two \<open>Basic\<close> wallets \<open>A\<close> and \<open>B\<close> with the given balances, in hundredths, no
  transaction yet, and the given faults ahead.
\<close>

definition ledger :: "decimal \<Rightarrow> decimal \<Rightarrow> fault list \<Rightarrow> process" where
  "ledger a b fs =
     \<lparr>db = \<lparr>wallets = [''A'' \<mapsto> \<lparr>userId = ''alice'', balance = a, walletType = ''Basic'',
                                 transactionLimit = 100000\<rparr>,
                       ''B'' \<mapsto> \<lparr>userId = ''bob'', balance = b, walletType = ''Basic'',
                                 transactionLimit = 100000\<rparr>],
            transactions = [], walletCounter = 2, faults = fs, journal = []\<rparr>,
      walletLocks = Map.empty\<rparr>"

definition balance_of :: "process \<Rightarrow> string \<Rightarrow> decimal option" where
  "balance_of p w = map_option balance (wallets (db p) w)"

definition balances :: "string list \<Rightarrow> process \<Rightarrow> decimal option list" where
  "balances ws p = map (balance_of p) ws"

text \<open>The transaction records in insertion order: kind, status and error message.\<close>

definition tx_log :: "process \<Rightarrow> (tx_type \<times> tx_status \<times> string option) list" where
  "tx_log p = map (\<lambda>t. (txType t, status t, errorMessage t)) (transactions (db p))"

section \<open>The logger raises nothing\<close>

lemma logTransaction_None [simp]: "logTransaction f data = None"
  by (cases f) (simp_all add: logTransaction_def)

section \<open>Rounding\<close>

lemma rne_err: "\<bar>of_int (rne x) - x\<bar> \<le> 1/2"
proof -
  have "of_int \<lfloor>x\<rfloor> \<le> x" "x < of_int \<lfloor>x\<rfloor> + 1" by linarith+
  then show ?thesis
    by (auto simp: rne_def Let_def abs_le_iff)
qed

lemma rne_nonneg: "0 \<le> x \<Longrightarrow> 0 \<le> rne x"
  by (auto simp: rne_def Let_def)

lemma ilog2_lower:
  assumes "0 < x"
  shows "2 powi ilog2 x \<le> x"
proof (cases "1 \<le> x")
  case True
  then have pos: "0 < \<lfloor>x\<rfloor>" by linarith
  from bitlen_bounds[OF pos] have "(2::int) ^ nat (bitlen \<lfloor>x\<rfloor> - 1) \<le> \<lfloor>x\<rfloor>" by simp
  then have "(of_int ((2::int) ^ nat (bitlen \<lfloor>x\<rfloor> - 1)) :: rat) \<le> of_int \<lfloor>x\<rfloor>"
    by (simp only: of_int_le_iff)
  moreover have "(of_int \<lfloor>x\<rfloor> :: rat) \<le> x" by (rule of_int_floor_le)
  ultimately have "(of_int ((2::int) ^ nat (bitlen \<lfloor>x\<rfloor> - 1)) :: rat) \<le> x"
    by (rule order_trans)
  then have "(2::rat) ^ nat (bitlen \<lfloor>x\<rfloor> - 1) \<le> x"
    by (simp only: of_int_power of_int_numeral)
  moreover have "0 \<le> bitlen \<lfloor>x\<rfloor> - 1"
    using pos by (auto simp: bitlen_alt_def)
  ultimately show ?thesis using True
    by (simp add: ilog2_def power_int_nonneg_exp)
next
  case False
  let ?y = "1 / x"
  let ?m = "bitlen (\<lceil>?y\<rceil> - 1)"
  from False assms have y1: "1 < ?y" by (simp add: field_simps)
  then have pos: "0 < \<lceil>?y\<rceil> - 1" by linarith
  from bitlen_bounds[OF pos] have "\<lceil>?y\<rceil> - 1 < 2 ^ nat ?m" by simp
  then have "\<lceil>?y\<rceil> \<le> 2 ^ nat ?m" by simp
  then have "(of_int \<lceil>?y\<rceil> :: rat) \<le> of_int (2 ^ nat ?m)"
    by (simp only: of_int_le_iff)
  moreover have "?y \<le> of_int \<lceil>?y\<rceil>" by (rule le_of_int_ceiling)
  ultimately have "?y \<le> of_int (2 ^ nat ?m)" by (rule order_trans[rotated])
  then have "?y \<le> 2 ^ nat ?m" by (simp only: of_int_power of_int_numeral)
  then have "1 \<le> x * 2 ^ nat ?m" using assms by (simp add: field_simps)
  then have "1 / 2 ^ nat ?m \<le> x" by (simp add: field_simps)
  moreover have "0 \<le> ?m" by (rule bitlen_nonneg)
  ultimately show ?thesis using False
    by (simp add: ilog2_def power_int_minus_divide power_int_nonneg_exp)
qed

lemma ulp_bound:
  assumes "x \<noteq> 0"
  shows "2 powi ulp_exp x \<le> \<bar>x\<bar> / 2 ^ 52 + 1 / 2 ^ 1074"
proof (cases "ilog2 \<bar>x\<bar> - 52 \<ge> - 1074")
  case True
  then have "ulp_exp x = ilog2 \<bar>x\<bar> - 52" by (simp add: ulp_exp_def)
  then have "(2::rat) powi ulp_exp x = 2 powi ilog2 \<bar>x\<bar> / 2 ^ 52"
    by (simp add: power_int_diff)
  also have "\<dots> \<le> \<bar>x\<bar> / 2 ^ 52"
    using ilog2_lower[of "\<bar>x\<bar>"] assms by (simp add: divide_right_mono)
  finally show ?thesis by simp
next
  case False
  then have "ulp_exp x = - 1074" by (simp add: ulp_exp_def)
  then have "(2::rat) powi ulp_exp x = 1 / 2 ^ 1074"
    by (simp add: power_int_minus_divide)
  then show ?thesis by simp
qed

text \<open>The error of one rounding: half a unit in the last place.\<close>

lemma rnd_err: "\<bar>rnd x - x\<bar> \<le> \<bar>x\<bar> / 2 ^ 53 + 1 / 2 ^ 1075"
proof (cases "x = 0")
  case True
  then show ?thesis by (simp add: rnd_def)
next
  case False
  define u :: rat where "u = 2 powi ulp_exp x"
  have upos: "0 < u" by (simp add: u_def)
  have "rnd x - x = (of_int (rne (x / u)) - x / u) * u"
    using False upos by (simp add: rnd_def u_def field_simps)
  then have "\<bar>rnd x - x\<bar> = \<bar>of_int (rne (x / u)) - x / u\<bar> * u"
    using upos by (simp add: abs_mult)
  also have "\<dots> \<le> 1/2 * u"
    using rne_err[of "x / u"] upos by (intro mult_right_mono) auto
  also have "\<dots> \<le> 1/2 * (\<bar>x\<bar> / 2 ^ 52 + 1 / 2 ^ 1074)"
    using ulp_bound[OF False] by (simp add: u_def)
  also have "\<dots> = \<bar>x\<bar> / 2 ^ 53 + 1 / 2 ^ 1075"
    by (simp add: field_simps)
  finally show ?thesis .
qed

lemma rnd_nonneg: "0 \<le> x \<Longrightarrow> 0 \<le> rnd x"
  by (simp add: rnd_def rne_nonneg)

lemma rnd_zero [simp]: "rnd 0 = 0"
  by (simp add: rnd_def)

lemma rnd_close:
  assumes "\<bar>x\<bar> \<le> 40000000000"
  shows "\<bar>rnd x - x\<bar> \<le> 1 / 100000"
proof -
  have "\<bar>x\<bar> / 2 ^ 53 \<le> 40000000000 / 2 ^ 53"
    using assms by (simp add: divide_right_mono)
  moreover have "(40000000000::rat) / 2 ^ 53 + 1 / 2 ^ 1075 \<le> 1 / 100000"
    by simp
  ultimately show ?thesis using rnd_err[of x] by linarith
qed

lemma toFixed2_near:
  assumes "\<bar>x * 100 - of_int c\<bar> < 1/2"
  shows "toFixed2 x = c"
proof -
  from assms have lo: "of_int c - 1/2 < x * 100" and hi: "x * 100 < of_int c + 1/2"
    by linarith+
  show ?thesis
  proof (cases "x < 0")
    case True
    have "\<lfloor>- x * 100 + 1/2\<rfloor> = - c"
    proof (rule floor_unique)
      show "of_int (- c) \<le> - x * 100 + 1/2" using hi by simp
      show "- x * 100 + 1/2 < of_int (- c) + 1" using lo by simp
    qed
    then show ?thesis using True by (simp add: toFixed2_def)
  next
    case False
    have "\<lfloor>x * 100 + 1/2\<rfloor> = c"
    proof (rule floor_unique)
      show "of_int c \<le> x * 100 + 1/2" using lo by simp
      show "x * 100 + 1/2 < of_int c + 1" using hi by simp
    qed
    then show ?thesis using False by (simp add: toFixed2_def)
  qed
qed

lemma toFixed2_nonneg: "0 \<le> x \<Longrightarrow> 0 \<le> toFixed2 x"
  by (simp add: toFixed2_def)

section \<open>Arithmetic on whole hundredths\<close>

lemma rnd_err_weak: "\<bar>rnd x - x\<bar> \<le> \<bar>x\<bar> / 2 ^ 53 + 1 / 2 ^ 53"
proof -
  have "(1::rat) / 2 ^ 1075 \<le> 1 / 2 ^ 53" by simp
  with rnd_err[of x] show ?thesis by linarith
qed

lemma cents_close:
  assumes "\<bar>c\<bar> < 2 * 10 ^ 12"
  shows "\<bar>rnd (of_int c / 100) - of_int c / 100\<bar> \<le> 1 / 100000"
    and "\<bar>(of_int c :: rat) / 100\<bar> < 20000000000"
proof -
  from assms have "(of_int \<bar>c\<bar> :: rat) < of_int (2 * 10 ^ 12)"
    by (simp only: of_int_less_iff)
  then have "\<bar>of_int c :: rat\<bar> < 2000000000000" by simp
  then show b: "\<bar>(of_int c :: rat) / 100\<bar> < 20000000000" by simp
  then show "\<bar>rnd (of_int c / 100) - of_int c / 100\<bar> \<le> 1 / 100000"
    by (intro rnd_close) simp
qed

lemma decimal_close:
  assumes "decimal_12_2 c"
  shows "\<bar>rnd (of_int c / 100) - of_int c / 100\<bar> \<le> 1 / 100000"
    and "\<bar>(of_int c :: rat) / 100\<bar> < 10000000000"
proof -
  from assms have "(of_int \<bar>c\<bar> :: rat) < of_int (10 ^ 12)"
    unfolding decimal_12_2_def by (simp only: of_int_less_iff)
  then have "\<bar>of_int c :: rat\<bar> < 1000000000000" by simp
  then show b: "\<bar>(of_int c :: rat) / 100\<bar> < 10000000000" by simp
  then show "\<bar>rnd (of_int c / 100) - of_int c / 100\<bar> \<le> 1 / 100000"
    by (intro rnd_close) simp
qed

lemma exact_add:
  assumes "decimal_12_2 b" "\<bar>k\<bar> < 2 * 10 ^ 12"
  shows "toFixed2 (fadd (parseFloat b) (number_of_cents k)) = b + k"
proof -
  define B where "B = (of_int b :: rat) / 100"
  define K where "K = (of_int k :: rat) / 100"
  define B' where "B' = rnd B"
  define K' where "K' = rnd K"
  define S where "S = rnd (B' + K')"
  have eb: "\<bar>B' - B\<bar> \<le> 1 / 100000" "\<bar>B\<bar> < 10000000000"
    using decimal_close[OF assms(1)] by (simp_all add: B_def B'_def)
  have ek: "\<bar>K' - K\<bar> \<le> 1 / 100000" "\<bar>K\<bar> < 20000000000"
    using cents_close[OF assms(2)] by (simp_all add: K_def K'_def)
  have "\<bar>B' + K'\<bar> \<le> 40000000000" using eb ek by linarith
  from rnd_close[OF this] have "\<bar>S - (B' + K')\<bar> \<le> 1 / 100000" by (simp add: S_def)
  with eb ek have "\<bar>S - (B + K)\<bar> \<le> 3 / 100000" by linarith
  then have "\<bar>S * 100 - (B * 100 + K * 100)\<bar> < 1 / 2" by linarith
  moreover have "B * 100 + K * 100 = of_int (b + k)" by (simp add: B_def K_def)
  ultimately have "\<bar>S * 100 - of_int (b + k)\<bar> < 1 / 2" by simp
  from toFixed2_near[OF this] show ?thesis
    by (simp add: fadd_def parseFloat_def number_of_cents_def S_def B'_def K'_def B_def K_def)
qed

lemma exact_sub:
  assumes "decimal_12_2 b" "\<bar>k\<bar> < 2 * 10 ^ 12"
  shows "toFixed2 (fsub (parseFloat b) (number_of_cents k)) = b - k"
proof -
  define B where "B = (of_int b :: rat) / 100"
  define K where "K = (of_int k :: rat) / 100"
  define B' where "B' = rnd B"
  define K' where "K' = rnd K"
  define S where "S = rnd (B' - K')"
  have eb: "\<bar>B' - B\<bar> \<le> 1 / 100000" "\<bar>B\<bar> < 10000000000"
    using decimal_close[OF assms(1)] by (simp_all add: B_def B'_def)
  have ek: "\<bar>K' - K\<bar> \<le> 1 / 100000" "\<bar>K\<bar> < 20000000000"
    using cents_close[OF assms(2)] by (simp_all add: K_def K'_def)
  have "\<bar>B' - K'\<bar> \<le> 40000000000" using eb ek by linarith
  from rnd_close[OF this] have "\<bar>S - (B' - K')\<bar> \<le> 1 / 100000" by (simp add: S_def)
  with eb ek have "\<bar>S - (B - K)\<bar> \<le> 3 / 100000" by linarith
  then have "\<bar>S * 100 - (B * 100 - K * 100)\<bar> < 1 / 2" by linarith
  moreover have "B * 100 - K * 100 = of_int (b - k)" by (simp add: B_def K_def)
  ultimately have "\<bar>S * 100 - of_int (b - k)\<bar> < 1 / 2" by simp
  from toFixed2_near[OF this] show ?thesis
    by (simp add: fsub_def parseFloat_def number_of_cents_def S_def B'_def K'_def B_def K_def)
qed

lemma amount_bounded:
  assumes "decimal_12_2 l" and "0 \<le> k" and "\<not> parseFloat l < number_of_cents k"
  shows "\<bar>k\<bar> < 2 * 10 ^ 12"
proof (rule ccontr)
  assume "\<not> \<bar>k\<bar> < 2 * 10 ^ 12"
  with assms(2) have "2 * 10 ^ 12 \<le> k" by simp
  then have "(of_int (2 * 10 ^ 12) :: rat) \<le> of_int k" by (simp only: of_int_le_iff)
  define K where "K = (of_int k :: rat) / 100"
  define L where "L = (of_int l :: rat) / 100"
  have big: "20000000000 \<le> K"
    using \<open>(of_int (2 * 10 ^ 12) :: rat) \<le> of_int k\<close> by (simp add: K_def)
  have "\<bar>rnd L - L\<bar> \<le> 1 / 100000" "\<bar>L\<bar> < 10000000000"
    using decimal_close[OF assms(1)] unfolding L_def by blast+
  then have "rnd L < 10000000001" by linarith
  moreover from assms(3) have "rnd K \<le> rnd L"
    by (simp add: parseFloat_def number_of_cents_def K_def L_def)
  moreover have "\<bar>rnd K - K\<bar> \<le> \<bar>K\<bar> / 9007199254740992 + 1 / 9007199254740992"
    using rnd_err_weak[of K] by simp
  moreover have "\<bar>K\<bar> / 9007199254740992 \<le> \<bar>K\<bar> / 2" by simp
  ultimately show False using big by linarith
qed

text \<open>On whole hundredths the comparison of the numbers is that of the decimals.\<close>

lemma cents_less:
  assumes "decimal_12_2 b" and "b < k"
  shows "parseFloat b < number_of_cents k"
proof (cases "\<bar>k\<bar> < 2 * 10 ^ 12")
  case True
  define B where "B = (of_int b :: rat) / 100"
  define K where "K = (of_int k :: rat) / 100"
  have eb: "\<bar>rnd B - B\<bar> \<le> 1 / 100000"
    using decimal_close[OF assms(1)] by (simp add: B_def)
  have ek: "\<bar>rnd K - K\<bar> \<le> 1 / 100000"
    using cents_close[OF True] by (simp add: K_def)
  from assms(2) have "b + 1 \<le> k" by simp
  then have "(of_int (b + 1) :: rat) \<le> of_int k" by (simp only: of_int_le_iff)
  then have "B + 1 / 100 \<le> K" by (simp add: B_def K_def field_simps)
  with eb ek have "rnd B < rnd K" by linarith
  then show ?thesis by (simp add: parseFloat_def number_of_cents_def B_def K_def)
next
  case False
  from assms have "- (10 ^ 12) < k" by (simp add: decimal_12_2_def)
  with False have "0 \<le> k" by simp
  show ?thesis
  proof (rule ccontr)
    assume "\<not> parseFloat b < number_of_cents k"
    from amount_bounded[OF assms(1) \<open>0 \<le> k\<close> this] False show False by simp
  qed
qed

section \<open>The single writes\<close>

lemma updateWalletBalance_result:
  assumes "updateWalletBalance st w nb = (r, st')"
  shows "transactions st' = transactions st"
    and "walletCounter st' = walletCounter st"
    and "faults st' = tl (faults st)"
    and "wallets st' = wallets st \<or>
         (\<exists>wl. wallets st w = Some wl \<and> decimal_12_2 nb \<and> wallets st' = (wallets st)(w \<mapsto> wl\<lparr>balance := nb\<rparr>))"
    and "r = Inr x \<Longrightarrow> \<exists>wl. wallets st w = Some wl \<and> decimal_12_2 nb \<and> x = wl\<lparr>balance := nb\<rparr> \<and>
           wallets st' = (wallets st)(w \<mapsto> wl\<lparr>balance := nb\<rparr>)"
  using assms
  by (auto simp: updateWalletBalance_def next_fault_def Let_def
      split: fault.splits option.splits if_splits list.splits)

lemma createTransaction_result:
  assumes "createTransaction st ins = (r, st')"
  shows "wallets st' = wallets st"
    and "walletCounter st' = walletCounter st"
    and "faults st' = tl (faults st)"
    and "transactions st' = transactions st \<or> (\<exists>tx. r = Inr tx \<and> transactions st' = transactions st @ [tx])"
    and "r = Inr x \<Longrightarrow> transactions st' = transactions st @ [x] \<and> txId x = length (transactions st) \<and>
           errorMessage x = None \<and> walletId x = walletId ins \<and> amount x = amount ins \<and>
           txType x = txType ins \<and> paymentMode x = paymentMode ins \<and> status x = status ins \<and>
           description x = description ins \<and> recipientWalletId x = recipientWalletId ins \<and>
           recipientUserId x = recipientUserId ins"
  using assms
  by (auto simp: createTransaction_def next_fault_def Let_def
      split: fault.splits option.splits if_splits list.splits)

lemma updateTransactionStatus_result:
  assumes "updateTransactionStatus st i s m = (r, st')"
  shows "wallets st' = wallets st"
    and "walletCounter st' = walletCounter st"
    and "faults st' = tl (faults st)"
    and "length (transactions st') = length (transactions st)"
    and "transactions st' = transactions st \<or>
         (i < length (transactions st) \<and> r = Inr (Some (transactions st' ! i)) \<and>
          transactions st' = (transactions st)[i := (transactions st ! i)\<lparr>status := s,
             errorMessage := (case m of None \<Rightarrow> errorMessage (transactions st ! i) | Some e \<Rightarrow> Some e)\<rparr>])"
    and "r = Inr x \<Longrightarrow> i < length (transactions st) \<Longrightarrow>
           x = Some (transactions st' ! i) \<and>
           transactions st' = (transactions st)[i := (transactions st ! i)\<lparr>status := s,
             errorMessage := (case m of None \<Rightarrow> errorMessage (transactions st ! i) | Some e \<Rightarrow> Some e)\<rparr>]"
  using assms
  by (auto simp: updateTransactionStatus_def next_fault_def Let_def
      split: fault.splits option.splits if_splits list.splits)

lemma createTransaction_journal:
  assumes "createTransaction st ins = (Inr x, st')"
  shows "journal st' = journal st @ [InsertTransaction x]"
  using assms
  by (auto simp: createTransaction_def next_fault_def Let_def
      split: fault.splits option.splits if_splits list.splits)

lemma updateWalletBalance_journal:
  assumes "updateWalletBalance st w nb = (Inr x, st')"
  shows "journal st' = journal st @ [SetBalance w nb]"
  using assms
  by (auto simp: updateWalletBalance_def next_fault_def Let_def
      split: fault.splits option.splits if_splits list.splits)

lemma updateTransactionStatus_journal:
  assumes "updateTransactionStatus st i s m = (Inr x, st')" and "i < length (transactions st)"
  shows "journal st' = journal st @ [SetStatus i s m]"
  using assms
  by (auto simp: updateTransactionStatus_def next_fault_def Let_def
      split: fault.splits option.splits if_splits list.splits)

section \<open>Operations under their mutexes\<close>

lemma deposit_eq:
  assumes "walletLocks p w \<noteq> Some True"
  shows "deposit p w a m d =
    Some (fst (deposit_locked (db p) w a m d),
          \<lparr>db = snd (deposit_locked (db p) w a m d), walletLocks = (walletLocks p)(w \<mapsto> False)\<rparr>)"
  using assms
  by (cases "deposit_locked (db p) w a m d")
     (auto simp: deposit_def runExclusive_def on_store_def getWalletLock_def Let_def)

lemma transfer_eq:
  assumes "f \<noteq> t" "walletLocks p f \<noteq> Some True" "walletLocks p t \<noteq> Some True"
  shows "transfer p f t u a d =
    Some (fst (transfer_locked (db p) f t u a d),
          \<lparr>db = snd (transfer_locked (db p) f t u a d),
           walletLocks = (walletLocks p)(f \<mapsto> False, t \<mapsto> False)\<rparr>)"
  using assms
  by (cases "transfer_locked (db p) f t u a d")
     (auto simp: transfer_def runExclusive_def on_store_def getWalletLock_def Let_def fun_upd_twist)

section \<open>Wallet provisioning\<close>

text \<open>
  C9. \<^verbatim>\<open>createWallet(userId, tier)\<close>: a tier other than \<open>Basic\<close> and \<open>Premium\<close> fails
  with the error naming the unknown tier and leaves the wallets table as it was; a
  wallet that is returned has balance \<open>0.00\<close> and the limit of its tier, \<open>1000.00\<close> for
  \<open>Basic\<close> and \<open>10000.00\<close> for \<open>Premium\<close>, and is the row written under the new id; and
  with a known tier, a fresh id and no fault at the write, a wallet is returned.
\<close>

theorem createWallet_provisions:
  assumes "createWallet st newId u t = (r, st')"
  shows "(t \<noteq> ''Basic'' \<and> t \<noteq> ''Premium'' \<longrightarrow>
            r = Inl (Error (''Unknown wallet type: '' @ t)) \<and> wallets st' = wallets st) \<and>
         (\<forall>w. r = Inr w \<longrightarrow>
            w = \<lparr>userId = u, balance = 0, walletType = t,
                 transactionLimit = (if t = ''Basic'' then 100000 else 1000000)\<rparr> \<and>
            (t = ''Basic'' \<or> t = ''Premium'') \<and>
            wallets st newId = None \<and> wallets st' = (wallets st)(newId \<mapsto> w)) \<and>
         ((t = ''Basic'' \<or> t = ''Premium'') \<and> wallets st newId = None \<and>
          (faults st = [] \<or> hd (faults st) = NoFault) \<longrightarrow> (\<exists>w. r = Inr w))"
  using assms
  by (auto simp: createWallet_def WalletFactory_createWallet_def next_fault_def Let_def
      split: fault.splits option.splits if_splits list.splits)

theorem createWallet_provisions_witness:
  "fst (createWallet (db (init [])) ''A'' ''alice'' ''Premium'') =
     Inr \<lparr>userId = ''alice'', balance = 0, walletType = ''Premium'', transactionLimit = 1000000\<rparr>
   \<and> wallets (snd (createWallet (db (init [])) ''A'' ''alice'' ''Premium'')) ''A'' =
     Some \<lparr>userId = ''alice'', balance = 0, walletType = ''Premium'', transactionLimit = 1000000\<rparr>
   \<and> fst (createWallet (db (init [])) ''A'' ''alice'' ''Gold'') = Inl (Error ''Unknown wallet type: Gold'')
   \<and> wallets (snd (createWallet (db (init [])) ''A'' ''alice'' ''Gold'')) = Map.empty"
  using createWallet_provisions[of "db (init [])" "''A''" "''alice''" "''Gold''"
          "fst (createWallet (db (init [])) ''A'' ''alice'' ''Gold'')"
          "snd (createWallet (db (init [])) ''A'' ''alice'' ''Gold'')"]
        createWallet_provisions[of "db (init [])" "''A''" "''alice''" "''Premium''"
          "fst (createWallet (db (init [])) ''A'' ''alice'' ''Premium'')"
          "snd (createWallet (db (init [])) ''A'' ''alice'' ''Premium'')"]
  by (auto simp add: init_def)

lemma transfer_self: "transfer p w w u a d = None"
  by (auto simp: transfer_def runExclusive_def on_store_def getWalletLock_def Let_def)

lemma idle_free: "idle p \<Longrightarrow> walletLocks p l \<noteq> Some True"
  by (simp add: idle_def)

section \<open>The small ledger\<close>

lemma ledger_simps:
  "wallets (db (ledger a b fs)) ''A'' =
     Some \<lparr>userId = ''alice'', balance = a, walletType = ''Basic'', transactionLimit = 100000\<rparr>"
  "wallets (db (ledger a b fs)) ''B'' =
     Some \<lparr>userId = ''bob'', balance = b, walletType = ''Basic'', transactionLimit = 100000\<rparr>"
  "idle (ledger a b fs)"
  "transactions (db (ledger a b fs)) = []"
  "faults (db (ledger a b fs)) = fs"
  "walletLocks (ledger a b fs) = Map.empty"
  by (simp_all add: ledger_def idle_def)

lemma parseFloat_1000: "parseFloat 100000 = 1000"
  by code_simp

lemma decimal_str_1000: "decimal_str 100000 = ''1000.00''"
  by (simp add: decimal_str_def cents_str_def digits.simps digit_char_def)

section \<open>Rejections before any write\<close>

lemma transfer_locked_insufficient:
  assumes "wallets st f = Some fw" "wallets st t = Some tw" "parseFloat (balance fw) < a"
  shows "transfer_locked st f t u a d =
           (Inl (InsufficientFundsException (parseFloat (balance fw)) a f), st)"
  using assms by (simp add: transfer_locked_def)

text \<open>
  C2. A transfer between two wallets of the store, asked for more than the sender's
  balance, fails with the \<^verbatim>\<open>InsufficientFundsException\<close> that carries the available
  balance, the requested amount and the sender's wallet id, and the store is what it
  was: no balance has changed and there is no new transaction record. "More than the
  balance" is the test of the code, \<^verbatim>\<open>currentBalance < amount\<close> on numbers; an amount of
  \<open>k\<close> hundredths with \<open>k\<close> above the stored balance passes it.
\<close>

theorem transfer_insufficient_funds:
  assumes "wallets (db p) f = Some fw" and "wallets (db p) t = Some tw"
    and "f \<noteq> t" and "idle p"
    and "parseFloat (balance fw) < a \<or>
         (\<exists>k. a = number_of_cents k \<and> decimal_12_2 (balance fw) \<and> balance fw < k)"
  shows "\<exists>p'. transfer p f t u a d =
                 Some (Inl (InsufficientFundsException (parseFloat (balance fw)) a f), p') \<and>
              db p' = db p"
proof -
  from assms(5) have "parseFloat (balance fw) < a" by (auto intro: cents_less)
  with assms(1-4) show ?thesis
    by (simp add: transfer_eq idle_free transfer_locked_insufficient)
qed

theorem transfer_insufficient_funds_witness:
  "\<exists>p'. transfer (ledger 0 0 []) ''A'' ''B'' ''bob'' 10 None =
           Some (Inl (InsufficientFundsException 0 10 ''A''), p') \<and>
         db p' = db (ledger 0 0 [])"
  using transfer_insufficient_funds[of "ledger 0 0 []" "''A''"
      "\<lparr>userId = ''alice'', balance = 0, walletType = ''Basic'', transactionLimit = 100000\<rparr>"
      "''B''"
      "\<lparr>userId = ''bob'', balance = 0, walletType = ''Basic'', transactionLimit = 100000\<rparr>"
      10 "''bob''" None]
  by (simp add: ledger_simps parseFloat_def)

lemma deposit_locked_over_limit:
  assumes "wallets st w = Some wl" "parseFloat (transactionLimit wl) < a"
  shows "deposit_locked st w a m d =
           (Inl (Error (''Amount exceeds transaction limit of $'' @ decimal_str (transactionLimit wl))), st)"
  using assms by (simp add: deposit_locked_def)

section \<open>The errors of the writes\<close>

lemma updateWalletBalance_Inl:
  "updateWalletBalance st w nb = (Inl e, st') \<Longrightarrow> \<exists>m. e = Error m"
  by (auto simp: updateWalletBalance_def next_fault_def Let_def
      split: fault.splits option.splits if_splits list.splits)

lemma createTransaction_Inl:
  "createTransaction st ins = (Inl e, st') \<Longrightarrow> \<exists>m. e = Error m"
  by (auto simp: createTransaction_def next_fault_def Let_def
      split: fault.splits option.splits if_splits list.splits)

lemma updateTransactionStatus_Inl:
  "updateTransactionStatus st i s m = (Inl e, st') \<Longrightarrow> \<exists>m. e = Error m"
  by (auto simp: updateTransactionStatus_def next_fault_def Let_def
      split: fault.splits option.splits if_splits list.splits)

lemma catch_markFailed_Inl:
  assumes "catch_markFailed st i err = (r, st')" "\<exists>m. err = Error m"
  shows "\<exists>m. r = Inl (Error m)"
proof (cases "updateTransactionStatus st i failed (Some (message err))")
  case (Pair r1 st1)
  then show ?thesis using assms
    by (cases r1) (auto simp: catch_markFailed_def dest: updateTransactionStatus_Inl)
qed

lemma deposit_try_Inl:
  assumes "deposit_try st w wl a tx = (Inl e, st')"
  shows "\<exists>m. e = Error m"
proof (cases "updateWalletBalance st w (newBalance wl a)")
  case (Pair r1 st1)
  then show ?thesis using assms
    by (cases r1) (auto simp: deposit_try_def dest: updateWalletBalance_Inl updateTransactionStatus_Inl)
qed

lemma transfer_try_Inl:
  assumes "transfer_try st f t cb tw a d tx = (Inl e, st')"
  shows "\<exists>m. e = Error m"
  using assms
  by (auto simp: transfer_try_def split: prod.splits sum.splits
      dest: updateWalletBalance_Inl updateTransactionStatus_Inl createTransaction_Inl)

lemma deposit_locked_Inl:
  assumes "deposit_locked st w a m d = (Inl e, st')"
  shows "\<exists>msg. e = Error msg"
  using assms
  by (auto simp: deposit_locked_def split: option.splits if_splits prod.splits sum.splits
      dest: createTransaction_Inl deposit_try_Inl catch_markFailed_Inl)

lemma transfer_locked_InsufficientFunds:
  assumes "transfer_locked st f t u a d = (Inl (InsufficientFundsException x y z), st')"
  shows "st' = st \<and> (\<exists>fw. wallets st f = Some fw \<and> x = parseFloat (balance fw) \<and> x < a \<and> y = a \<and> z = f)"
  using assms
  by (auto simp: transfer_locked_def Let_def split: option.splits if_splits prod.splits sum.splits
      dest: createTransaction_Inl transfer_try_Inl catch_markFailed_Inl)

lemma deposit_limit_rejected:
  assumes "wallets (db p) w = Some wl" and "idle p"
    and "parseFloat (transactionLimit wl) < a \<or>
         (\<exists>k. a = number_of_cents k \<and> decimal_12_2 (transactionLimit wl) \<and> transactionLimit wl < k)"
  shows "\<exists>p'. deposit p w a m d =
            Some (Inl (Error (''Amount exceeds transaction limit of $'' @
                              decimal_str (transactionLimit wl))), p') \<and>
          db p' = db p"
proof -
  from assms(3) have "parseFloat (transactionLimit wl) < a" by (auto intro: cents_less)
  with assms(1,2) show ?thesis
    by (simp add: deposit_eq idle_free deposit_locked_over_limit)
qed

lemma deposit_error_plain:
  assumes "deposit p w a m d = Some (Inl e, q)"
  shows "\<exists>msg. e = Error msg"
proof -
  from assms have free: "walletLocks p w \<noteq> Some True"
    by (auto simp: deposit_def runExclusive_def getWalletLock_def split: if_splits)
  obtain r st where rs: "deposit_locked (db p) w a m d = (r, st)"
    by (cases "deposit_locked (db p) w a m d")
  with assms free have "r = Inl e" by (simp add: deposit_eq)
  with rs show ?thesis by (auto dest: deposit_locked_Inl)
qed

lemma transfer_InsufficientFunds_untouched:
  assumes "transfer p f t u a d = Some (Inl (InsufficientFundsException x y z), q)"
  shows "db q = db p"
proof -
  from assms have "f \<noteq> t" by (auto simp: transfer_self)
  moreover from assms have "walletLocks p f \<noteq> Some True" "walletLocks p t \<noteq> Some True"
    by (auto simp: transfer_def runExclusive_def getWalletLock_def Let_def split: if_splits option.splits)
  moreover obtain r st where rs: "transfer_locked (db p) f t u a d = (r, st)"
    by (cases "transfer_locked (db p) f t u a d")
  ultimately have "r = Inl (InsufficientFundsException x y z)" "db q = st"
    using assms by (auto simp: transfer_eq)
  with rs show ?thesis by (auto dest: transfer_locked_InsufficientFunds)
qed

text \<open>
  C3, as the code has it. A deposit of more than the wallet's transaction limit (by the
  test of the code, \<^verbatim>\<open>amount > parseFloat(wallet.transactionLimit)\<close>, which an amount
  of \<open>k\<close> hundredths with \<open>k\<close> above the stored limit passes) fails with the plain
  \<^verbatim>\<open>Error\<close> whose message is \<^verbatim>\<open>Amount exceeds transaction limit of $\<close> followed by
  the limit, and the store is what it was: the balance has not changed and there is no
  transaction record. Every error a deposit returns, this one and those of failed store
  writes alike, is a plain \<^verbatim>\<open>Error\<close>, which both routes answer with status 500. Only
  \<^verbatim>\<open>InsufficientFundsException\<close> is set apart: the transfer route answers it with
  status 400, and a transfer that returns it has written nothing.
\<close>

theorem deposit_limit_rejection:
  assumes "wallets (db p) w = Some wl" and "idle p"
    and "parseFloat (transactionLimit wl) < a \<or>
         (\<exists>k. a = number_of_cents k \<and> decimal_12_2 (transactionLimit wl) \<and> transactionLimit wl < k)"
  shows "(\<exists>p'. deposit p w a m d =
            Some (Inl (Error (''Amount exceeds transaction limit of $'' @
                              decimal_str (transactionLimit wl))), p') \<and>
            db p' = db p) \<and>
         (\<forall>a2 m2 d2 e q. deposit p w a2 m2 d2 = Some (Inl e, q) \<longrightarrow>
            (\<exists>msg. e = Error msg) \<and> fst (deposit_route_catch e) = 500) \<and>
         (\<forall>msg. fst (transfer_route_catch (Error msg)) = 500) \<and>
         (\<forall>t u a2 d2 x y z q.
            transfer p w t u a2 d2 = Some (Inl (InsufficientFundsException x y z), q) \<longrightarrow>
            db q = db p \<and> fst (transfer_route_catch (InsufficientFundsException x y z)) = 400)"
  using deposit_limit_rejected[OF assms]
  by (auto simp: deposit_route_catch_def transfer_route_catch_def
      dest: deposit_error_plain transfer_InsufficientFunds_untouched)

theorem deposit_limit_rejection_witness:
  "\<exists>p'. deposit (ledger 50000 0 []) ''A'' 1500 ''UPI'' None =
          Some (Inl (Error ''Amount exceeds transaction limit of $1000.00''), p') \<and>
        db p' = db (ledger 50000 0 [])"
  using deposit_limit_rejection[of "ledger 50000 0 []" "''A''"
      "\<lparr>userId = ''alice'', balance = 50000, walletType = ''Basic'', transactionLimit = 100000\<rparr>"
      1500 "''UPI''" None]
  by (simp add: ledger_simps parseFloat_1000 decimal_str_1000)

text \<open>
  C3 as stated fails where it has the limit rejection told apart from a store fault.
  A deposit of 1500.00 into a wallet with limit 1000.00 is rejected for the limit; a
  deposit of 500.00 whose insert the database refuses fails for the store; when the
  database's message is the same text, the two callers hold the same error value, and
  whatever the text, the deposit route answers both with status 500.
\<close>

theorem limit_rejection_same_as_store_fault:
  "map_option fst (deposit (ledger 50000 0 []) ''A'' 1500 ''UPI'' None) =
     Some (Inl (Error ''Amount exceeds transaction limit of $1000.00'')) \<and>
   map_option fst (deposit (ledger 50000 0 [DbFault ''Amount exceeds transaction limit of $1000.00''])
                     ''A'' 500 ''UPI'' None) =
     Some (Inl (Error ''Amount exceeds transaction limit of $1000.00'')) \<and>
   parseFloat 100000 < 1500 \<and> \<not> parseFloat 100000 < 500 \<and>
   fst (deposit_route_catch (Error ''Amount exceeds transaction limit of $1000.00'')) =
   fst (deposit_route_catch (Error ''connection terminated unexpectedly''))"
  by (simp add: deposit_eq ledger_simps deposit_locked_def parseFloat_1000 decimal_str_1000
      createTransaction_def next_fault_def deposit_route_catch_def)

section \<open>Failures after the pending record\<close>

lemma deposit_try_failed:
  assumes "deposit_try st w wl a tx = (Inl err, st')"
  shows "transactions st' = transactions st"
proof (cases "updateWalletBalance st w (newBalance wl a)")
  case (Pair r1 st1)
  note uwb = updateWalletBalance_result(1)[OF Pair]
  show ?thesis
  proof (cases r1)
    case (Inl e)
    with Pair assms uwb show ?thesis by (simp add: deposit_try_def)
  next
    case (Inr x)
    with Pair assms have "updateTransactionStatus st1 (txId tx) success None = (Inl err, st')"
      by (simp add: deposit_try_def)
    from updateTransactionStatus_result(5)[OF this] uwb show ?thesis by auto
  qed
qed

lemma catch_markFailed_marks:
  assumes "i < length (transactions st)" and "\<forall>msg. fst (next_fault st) \<noteq> DbFault msg"
  shows "\<exists>st'. catch_markFailed st i err = (Inl err, st') \<and>
           transactions st' = (transactions st)[i := (transactions st ! i)\<lparr>status := failed,
              errorMessage := Some (message err)\<rparr>] \<and>
           wallets st' = wallets st"
  using assms
  by (auto simp: catch_markFailed_def updateTransactionStatus_def next_fault_def Let_def
      split: fault.splits list.splits)

lemma deposit_locked_mutation_failure:
  assumes w: "wallets st w = Some wl" and lim: "\<not> parseFloat (transactionLimit wl) < a"
    and ct: "createTransaction st
               \<lparr>walletId = w, amount = a, txType = deposit_t, paymentMode = m, status = pending,
                description = d, recipientWalletId = None, recipientUserId = None\<rparr> = (Inr tx, st1)"
    and tr: "deposit_try st1 w wl a tx = (Inl err, st2)"
    and mark: "\<forall>msg. fst (next_fault st2) \<noteq> DbFault msg"
  shows "\<exists>st3. deposit_locked st w a m d = (Inl err, st3) \<and>
           transactions st3 = transactions st @ [tx\<lparr>status := failed, errorMessage := Some (message err)\<rparr>] \<and>
           status tx = pending"
proof -
  from createTransaction_result(5)[OF ct refl]
  have tx: "transactions st1 = transactions st @ [tx]" "txId tx = length (transactions st)"
    "status tx = pending" by simp_all
  from deposit_try_failed[OF tr] tx have t2: "transactions st2 = transactions st @ [tx]" by simp
  then have "txId tx < length (transactions st2)" using tx by simp
  from catch_markFailed_marks[OF this mark, of err] obtain st3 where
    c: "catch_markFailed st2 (txId tx) err = (Inl err, st3)"
    and t3: "transactions st3 = (transactions st2)[txId tx := (transactions st2 ! txId tx)\<lparr>status := failed,
              errorMessage := Some (message err)\<rparr>]" by blast
  from t3 t2 tx have "transactions st3 = transactions st @ [tx\<lparr>status := failed, errorMessage := Some (message err)\<rparr>]"
    by simp
  moreover have "deposit_locked st w a m d = (Inl err, st3)"
    using w lim ct tr c by (simp add: deposit_locked_def)
  ultimately show ?thesis using tx by blast
qed

lemma transfer_try_failed:
  assumes "transfer_try st f t cb tw a d tx = (Inl err, st')"
  shows "\<exists>extra. transactions st' = transactions st @ extra"
proof (cases "updateWalletBalance st f (newFromBalance cb a)")
  case p1: (Pair r1 st1)
  note u1 = updateWalletBalance_result(1)[OF p1]
  show ?thesis
  proof (cases r1)
    case (Inl e)
    with p1 assms u1 show ?thesis by (simp add: transfer_try_def)
  next
    case i1: (Inr x1)
    show ?thesis
    proof (cases "updateWalletBalance st1 t (newToBalance tw a)")
      case p2: (Pair r2 st2)
      note u2 = updateWalletBalance_result(1)[OF p2]
      show ?thesis
      proof (cases r2)
        case (Inl e)
        with p1 i1 p2 assms u1 u2 show ?thesis by (simp add: transfer_try_def)
      next
        case i2: (Inr x2)
        show ?thesis
        proof (cases "createTransaction st2
             \<lparr>walletId = t, amount = a, txType = transfer_in,
              paymentMode = ''WalletBalance'', status = success,
              description = d,
              recipientWalletId = Some f, recipientUserId = None\<rparr>")
          case p3: (Pair r3 st3)
          note u3 = createTransaction_result(4)[OF p3]
          show ?thesis
          proof (cases r3)
            case (Inl e)
            with p1 i1 p2 i2 p3 assms u1 u2 u3 show ?thesis by (auto simp add: transfer_try_def)
          next
            case i3: (Inr x3)
            with p1 i1 p2 i2 p3 assms
            have "updateTransactionStatus st3 (txId tx) success None = (Inl err, st')"
              by (simp add: transfer_try_def)
            from updateTransactionStatus_result(5)[OF this] u1 u2 u3 show ?thesis by auto
          qed
        qed
      qed
    qed
  qed
qed

lemma transfer_locked_mutation_failure:
  assumes f: "wallets st f = Some fw" and t: "wallets st t = Some tw"
    and bal: "\<not> parseFloat (balance fw) < a"
    and lim: "\<not> parseFloat (transactionLimit fw) < a"
    and ct: "createTransaction st
               \<lparr>walletId = f, amount = a, txType = transfer_out, paymentMode = ''WalletBalance'',
                status = pending, description = d, recipientWalletId = Some t,
                recipientUserId = Some u\<rparr> = (Inr tx, st1)"
    and tr: "transfer_try st1 f t (parseFloat (balance fw)) tw a d tx = (Inl err, st2)"
    and mark: "\<forall>msg. fst (next_fault st2) \<noteq> DbFault msg"
  shows "\<exists>st3. transfer_locked st f t u a d = (Inl err, st3) \<and>
           txId tx < length (transactions st3) \<and>
           transactions st3 ! txId tx = tx\<lparr>status := failed, errorMessage := Some (message err)\<rparr> \<and>
           status tx = pending"
proof -
  from createTransaction_result(5)[OF ct refl]
  have tx: "transactions st1 = transactions st @ [tx]" "txId tx = length (transactions st)"
    "status tx = pending" by simp_all
  from transfer_try_failed[OF tr] tx obtain extra
    where t2: "transactions st2 = transactions st @ [tx] @ extra" by auto
  then have lt: "txId tx < length (transactions st2)" using tx by simp
  from catch_markFailed_marks[OF this mark, of err] obtain st3 where
    c: "catch_markFailed st2 (txId tx) err = (Inl err, st3)"
    and t3: "transactions st3 = (transactions st2)[txId tx := (transactions st2 ! txId tx)\<lparr>status := failed,
              errorMessage := Some (message err)\<rparr>]" by blast
  from t3 t2 tx lt have "transactions st3 ! txId tx = tx\<lparr>status := failed, errorMessage := Some (message err)\<rparr>"
    "txId tx < length (transactions st3)"
    by (simp_all add: nth_append)
  moreover have "transfer_locked st f t u a d = (Inl err, st3)"
    using f t bal lim ct tr c by (simp add: transfer_locked_def)
  ultimately show ?thesis using tx by blast
qed

lemma ledger_db:
  "db (ledger a b fs) =
     \<lparr>wallets = [''A'' \<mapsto> \<lparr>userId = ''alice'', balance = a, walletType = ''Basic'',
                                 transactionLimit = 100000\<rparr>,
                       ''B'' \<mapsto> \<lparr>userId = ''bob'', balance = b, walletType = ''Basic'',
                                 transactionLimit = 100000\<rparr>],
            transactions = [], walletCounter = 2, faults = fs, journal = []\<rparr>"
  by (simp add: ledger_def)

lemma parseFloat_500: "parseFloat 50000 = 500"
  by code_simp

lemma debit_500: "toFixed2 (fsub 500 500) = 0"
  by code_simp

lemma credit_500: "toFixed2 (fadd (parseFloat 0) 500) = 50000"
  by code_simp

text \<open>
  C5, as the code has it. In a deposit, and in a transfer, once the pending record has
  been inserted: when the \<^verbatim>\<open>try\<close> block fails with an error \<open>err\<close> and the database does
  not refuse the status write of the \<^verbatim>\<open>catch\<close> block, the operation fails with that same
  \<open>err\<close>, and the record is still in the table, with status \<open>failed\<close> and the message
  of \<open>err\<close> as its error message, otherwise as it was inserted.
\<close>

theorem mutation_failure_marked:
  "(wallets (db p) w = Some wl \<and> idle p \<and> \<not> parseFloat (transactionLimit wl) < a \<and>
    createTransaction (db p)
      \<lparr>walletId = w, amount = a, txType = deposit_t, paymentMode = m, status = pending,
       description = d, recipientWalletId = None, recipientUserId = None\<rparr> = (Inr tx, st1) \<and>
    deposit_try st1 w wl a tx = (Inl err, st2) \<and>
    (\<forall>msg. fst (next_fault st2) \<noteq> DbFault msg)
    \<longrightarrow> (\<exists>p'. deposit p w a m d = Some (Inl err, p') \<and>
              txId tx < length (transactions (db p')) \<and>
              transactions (db p') ! txId tx =
                tx\<lparr>status := failed, errorMessage := Some (message err)\<rparr> \<and>
              status tx = pending))
   \<and>
   (wallets (db q) f = Some fw \<and> wallets (db q) t = Some tw \<and> f \<noteq> t \<and> idle q \<and>
    \<not> parseFloat (balance fw) < a' \<and> \<not> parseFloat (transactionLimit fw) < a' \<and>
    createTransaction (db q)
      \<lparr>walletId = f, amount = a', txType = transfer_out, paymentMode = ''WalletBalance'',
       status = pending, description = d', recipientWalletId = Some t,
       recipientUserId = Some u\<rparr> = (Inr otx, st1') \<and>
    transfer_try st1' f t (parseFloat (balance fw)) tw a' d' otx = (Inl err', st2') \<and>
    (\<forall>msg. fst (next_fault st2') \<noteq> DbFault msg)
    \<longrightarrow> (\<exists>q'. transfer q f t u a' d' = Some (Inl err', q') \<and>
              txId otx < length (transactions (db q')) \<and>
              transactions (db q') ! txId otx =
                otx\<lparr>status := failed, errorMessage := Some (message err')\<rparr> \<and>
              status otx = pending))"
proof (intro conjI impI; elim conjE)
  assume h: "wallets (db p) w = Some wl" "idle p" "\<not> parseFloat (transactionLimit wl) < a"
    "createTransaction (db p)
      \<lparr>walletId = w, amount = a, txType = deposit_t, paymentMode = m, status = pending,
       description = d, recipientWalletId = None, recipientUserId = None\<rparr> = (Inr tx, st1)"
    "deposit_try st1 w wl a tx = (Inl err, st2)"
    "\<forall>msg. fst (next_fault st2) \<noteq> DbFault msg"
  from deposit_locked_mutation_failure[OF h(1) h(3) h(4) h(5) h(6)] obtain st3 where
    "deposit_locked (db p) w a m d = (Inl err, st3)"
    "transactions st3 = transactions (db p) @ [tx\<lparr>status := failed, errorMessage := Some (message err)\<rparr>]"
    "status tx = pending" by blast
  moreover from createTransaction_result(5)[OF h(4) refl] have "txId tx = length (transactions (db p))"
    by simp
  ultimately show "\<exists>p'. deposit p w a m d = Some (Inl err, p') \<and>
              txId tx < length (transactions (db p')) \<and>
              transactions (db p') ! txId tx =
                tx\<lparr>status := failed, errorMessage := Some (message err)\<rparr> \<and>
              status tx = pending"
    using h(2) by (simp add: deposit_eq idle_free)
next
  assume h: "wallets (db q) f = Some fw" "wallets (db q) t = Some tw" "f \<noteq> t" "idle q"
    "\<not> parseFloat (balance fw) < a'" "\<not> parseFloat (transactionLimit fw) < a'"
    "createTransaction (db q)
      \<lparr>walletId = f, amount = a', txType = transfer_out, paymentMode = ''WalletBalance'',
       status = pending, description = d', recipientWalletId = Some t,
       recipientUserId = Some u\<rparr> = (Inr otx, st1')"
    "transfer_try st1' f t (parseFloat (balance fw)) tw a' d' otx = (Inl err', st2')"
    "\<forall>msg. fst (next_fault st2') \<noteq> DbFault msg"
  from transfer_locked_mutation_failure[OF h(1) h(2) h(5) h(6) h(7) h(8) h(9)] obtain st3 where
    "transfer_locked (db q) f t u a' d' = (Inl err', st3)"
    "txId otx < length (transactions st3)"
    "transactions st3 ! txId otx = otx\<lparr>status := failed, errorMessage := Some (message err')\<rparr>"
    "status otx = pending" by blast
  then show "\<exists>q'. transfer q f t u a' d' = Some (Inl err', q') \<and>
              txId otx < length (transactions (db q')) \<and>
              transactions (db q') ! txId otx =
                otx\<lparr>status := failed, errorMessage := Some (message err')\<rparr> \<and>
              status otx = pending"
    using h(3) h(4) by (simp add: transfer_eq idle_free)
qed

theorem mutation_failure_marked_witness:
  "(\<exists>p'. deposit (ledger 0 0 [NoFault, DbFault ''connection lost'']) ''A'' 500 ''UPI'' None =
           Some (Inl (Error ''connection lost''), p') \<and>
         transactions (db p') ! 0 =
           \<lparr>walletId = ''A'', amount = 500, txType = deposit_t, paymentMode = ''UPI'',
            status = failed, description = None, recipientWalletId = None,
            recipientUserId = None, txId = 0, errorMessage = Some ''connection lost''\<rparr>) \<and>
   (\<exists>q'. transfer (ledger 50000 0 [NoFault, NoFault, ObserverFault ''disk full''])
              ''A'' ''B'' ''bob'' 500 None =
           Some (Inl (Error ''disk full''), q') \<and>
         transactions (db q') ! 0 =
           \<lparr>walletId = ''A'', amount = 500, txType = transfer_out, paymentMode = ''WalletBalance'',
            status = failed, description = None, recipientWalletId = Some ''B'',
            recipientUserId = Some ''bob'', txId = 0, errorMessage = Some ''disk full''\<rparr>)"
proof
  let ?A = "\<lparr>userId = ''alice'', balance = 0, walletType = ''Basic'', transactionLimit = 100000\<rparr>"
  let ?tx = "\<lparr>walletId = ''A'', amount = 500, txType = deposit_t, paymentMode = ''UPI'',
              status = pending, description = None, recipientWalletId = None,
              recipientUserId = None, txId = 0, errorMessage = None\<rparr>"
  let ?st1 = "(db (ledger 0 0 [NoFault, DbFault ''connection lost'']))
                \<lparr>faults := [DbFault ''connection lost''], transactions := [?tx],
                 journal := [InsertTransaction ?tx]\<rparr>"
  let ?st2 = "?st1\<lparr>faults := []\<rparr>"
  show "\<exists>p'. deposit (ledger 0 0 [NoFault, DbFault ''connection lost'']) ''A'' 500 ''UPI'' None =
           Some (Inl (Error ''connection lost''), p') \<and>
         transactions (db p') ! 0 =
           \<lparr>walletId = ''A'', amount = 500, txType = deposit_t, paymentMode = ''UPI'',
            status = failed, description = None, recipientWalletId = None,
            recipientUserId = None, txId = 0, errorMessage = Some ''connection lost''\<rparr>"
    using mutation_failure_marked[THEN conjunct1,
        of "ledger 0 0 [NoFault, DbFault ''connection lost'']" "''A''" ?A 500 "''UPI''" None
           ?tx ?st1 "Error ''connection lost''" ?st2]
    by (simp add: ledger_simps parseFloat_1000 createTransaction_def next_fault_def ledger_db
          deposit_try_def updateWalletBalance_def Let_def) blast
next
  let ?A = "\<lparr>userId = ''alice'', balance = 50000, walletType = ''Basic'', transactionLimit = 100000\<rparr>"
  let ?B = "\<lparr>userId = ''bob'', balance = 0, walletType = ''Basic'', transactionLimit = 100000\<rparr>"
  let ?tx = "\<lparr>walletId = ''A'', amount = 500, txType = transfer_out,
              paymentMode = ''WalletBalance'',
              status = pending, description = None, recipientWalletId = Some ''B'',
              recipientUserId = Some ''bob'', txId = 0, errorMessage = None\<rparr>"
  let ?db = "db (ledger 50000 0 [NoFault, NoFault, ObserverFault ''disk full''])"
  let ?st1 = "?db\<lparr>faults := [NoFault, ObserverFault ''disk full''], transactions := [?tx],
                  journal := [InsertTransaction ?tx]\<rparr>"
  let ?st2 = "?st1\<lparr>faults := [],
                wallets := (wallets ?db)(''A'' \<mapsto> ?A\<lparr>balance := 0\<rparr>, ''B'' \<mapsto> ?B\<lparr>balance := 50000\<rparr>),
                journal := [InsertTransaction ?tx, SetBalance ''A'' 0, SetBalance ''B'' 50000]\<rparr>"
  show "\<exists>q'. transfer (ledger 50000 0 [NoFault, NoFault, ObserverFault ''disk full''])
              ''A'' ''B'' ''bob'' 500 None =
           Some (Inl (Error ''disk full''), q') \<and>
         transactions (db q') ! 0 =
           \<lparr>walletId = ''A'', amount = 500, txType = transfer_out, paymentMode = ''WalletBalance'',
            status = failed, description = None, recipientWalletId = Some ''B'',
            recipientUserId = Some ''bob'', txId = 0, errorMessage = Some ''disk full''\<rparr>"
    using mutation_failure_marked[THEN conjunct2,
        of "ledger 50000 0 [NoFault, NoFault, ObserverFault ''disk full'']" "''A''" ?A "''B''" ?B
           500 None "''bob''" ?tx ?st1 "Error ''disk full''" ?st2]
    by (simp add: ledger_simps parseFloat_1000 parseFloat_500 createTransaction_def next_fault_def
          ledger_db transfer_try_def updateWalletBalance_def Let_def newFromBalance_def
          newToBalance_def debit_500 credit_500 decimal_12_2_def) blast
qed

text \<open>
  C5 as stated fails when the status write of the \<^verbatim>\<open>catch\<close> block fails too. A
  deposit of 500.00, and a transfer of 500.00, whose balance update the database refuses
  with one message and whose status write it refuses with another: the call fails, and
  its record is left \<open>pending\<close> with no error message.
\<close>

theorem failed_marking_counterexample:
  "map_option fst
     (deposit (ledger 0 0 [NoFault, DbFault ''connection lost'', DbFault ''connection refused''])
        ''A'' 500 ''UPI'' None) = Some (Inl (Error ''connection refused'')) \<and>
   map_option (tx_log \<circ> snd)
     (deposit (ledger 0 0 [NoFault, DbFault ''connection lost'', DbFault ''connection refused''])
        ''A'' 500 ''UPI'' None) = Some [(deposit_t, pending, None)] \<and>
   map_option fst
     (transfer (ledger 50000 0 [NoFault, DbFault ''connection lost'', DbFault ''connection refused''])
        ''A'' ''B'' ''bob'' 500 None) = Some (Inl (Error ''connection refused'')) \<and>
   map_option (tx_log \<circ> snd)
     (transfer (ledger 50000 0 [NoFault, DbFault ''connection lost'', DbFault ''connection refused''])
        ''A'' ''B'' ''bob'' 500 None) = Some [(transfer_out, pending, None)]"
  by (simp add: deposit_eq transfer_eq ledger_simps deposit_locked_def transfer_locked_def
        parseFloat_1000 parseFloat_500 createTransaction_def
        next_fault_def ledger_db deposit_try_def transfer_try_def updateWalletBalance_def
        catch_markFailed_def updateTransactionStatus_def Let_def tx_log_def)

section \<open>Operations that succeed\<close>

lemma catch_markFailed_never_Inr: "catch_markFailed st i err \<noteq> (Inr r, st')"
  by (auto simp: catch_markFailed_def split: prod.splits sum.splits)

lemma transfer_try_success:
  assumes "transfer_try st f t cb tw a d out = (Inr r, st')"
  shows "\<exists>x1 s1 x2 s2 inn s3.
           updateWalletBalance st f (newFromBalance cb a) = (Inr x1, s1) \<and>
           updateWalletBalance s1 t (newToBalance tw a) = (Inr x2, s2) \<and>
           createTransaction s2
             \<lparr>walletId = t, amount = a, txType = transfer_in,
              paymentMode = ''WalletBalance'', status = success,
              description = d,
              recipientWalletId = Some f, recipientUserId = None\<rparr> = (Inr inn, s3) \<and>
           updateTransactionStatus s3 (txId out) success None = (Inr r, st')"
  using assms
  by (auto simp: transfer_try_def split: prod.splits sum.splits)

lemma transfer_locked_success:
  assumes "transfer_locked st f t u a d = (Inr r, st')"
  shows "\<exists>fw tw out s0 x1 s1 x2 s2 inn s3.
           wallets st f = Some fw \<and> wallets st t = Some tw \<and>
           \<not> parseFloat (balance fw) < a \<and> \<not> parseFloat (transactionLimit fw) < a \<and>
           createTransaction st
             \<lparr>walletId = f, amount = a, txType = transfer_out, paymentMode = ''WalletBalance'',
              status = pending, description = d, recipientWalletId = Some t,
              recipientUserId = Some u\<rparr> = (Inr out, s0) \<and>
           updateWalletBalance s0 f (newFromBalance (parseFloat (balance fw)) a) = (Inr x1, s1) \<and>
           updateWalletBalance s1 t (newToBalance tw a) = (Inr x2, s2) \<and>
           createTransaction s2
             \<lparr>walletId = t, amount = a, txType = transfer_in,
              paymentMode = ''WalletBalance'', status = success,
              description = d,
              recipientWalletId = Some f, recipientUserId = None\<rparr> = (Inr inn, s3) \<and>
           updateTransactionStatus s3 (txId out) success None = (Inr r, st')"
proof -
  from assms obtain fw tw where w: "wallets st f = Some fw" "wallets st t = Some tw"
    by (auto simp: transfer_locked_def split: option.splits)
  from assms w have v: "\<not> parseFloat (balance fw) < a" "\<not> parseFloat (transactionLimit fw) < a"
    by (auto simp: transfer_locked_def Let_def split: if_splits)
  let ?ins = "\<lparr>walletId = f, amount = a, txType = transfer_out, paymentMode = ''WalletBalance'',
              status = pending, description = d, recipientWalletId = Some t,
              recipientUserId = Some u\<rparr>"
  obtain r0 s0 where c0: "createTransaction st ?ins = (r0, s0)" by (cases "createTransaction st ?ins")
  with assms w v obtain out where r0: "r0 = Inr out"
    by (cases r0) (auto simp: transfer_locked_def Let_def)
  obtain r1 s1 where c1: "transfer_try s0 f t (parseFloat (balance fw)) tw a d out = (r1, s1)"
    by (cases "transfer_try s0 f t (parseFloat (balance fw)) tw a d out")
  with assms w v c0 r0 have "r1 = Inr r \<and> s1 = st'"
    by (cases r1) (auto simp: transfer_locked_def Let_def catch_markFailed_never_Inr)
  with c1 have "transfer_try s0 f t (parseFloat (balance fw)) tw a d out = (Inr r, st')" by simp
  from transfer_try_success[OF this] w v c0 r0 show ?thesis by blast
qed

lemma deposit_locked_success:
  assumes "deposit_locked st w a m d = (Inr r, st')"
  shows "\<exists>wl tx s0 x1 s1.
           wallets st w = Some wl \<and> \<not> parseFloat (transactionLimit wl) < a \<and>
           createTransaction st
             \<lparr>walletId = w, amount = a, txType = deposit_t, paymentMode = m, status = pending,
              description = d, recipientWalletId = None, recipientUserId = None\<rparr> = (Inr tx, s0) \<and>
           updateWalletBalance s0 w (newBalance wl a) = (Inr x1, s1) \<and>
           updateTransactionStatus s1 (txId tx) success None = (Inr r, st')"
proof -
  from assms obtain wl where w: "wallets st w = Some wl"
    by (auto simp: deposit_locked_def split: option.splits)
  from assms w have v: "\<not> parseFloat (transactionLimit wl) < a"
    by (auto simp: deposit_locked_def Let_def split: if_splits)
  let ?ins = "\<lparr>walletId = w, amount = a, txType = deposit_t, paymentMode = m, status = pending,
              description = d, recipientWalletId = None, recipientUserId = None\<rparr>"
  obtain r0 s0 where c0: "createTransaction st ?ins = (r0, s0)" by (cases "createTransaction st ?ins")
  with assms w v obtain tx where r0: "r0 = Inr tx"
    by (cases r0) (auto simp: deposit_locked_def Let_def)
  obtain r1 s1 where c1: "deposit_try s0 w wl a tx = (r1, s1)"
    by (cases "deposit_try s0 w wl a tx")
  with assms w v c0 r0 have "r1 = Inr r \<and> s1 = st'"
    by (cases r1) (auto simp: deposit_locked_def Let_def catch_markFailed_never_Inr)
  with c1 have "deposit_try s0 w wl a tx = (Inr r, st')" by simp
  then have "\<exists>x1 s1. updateWalletBalance s0 w (newBalance wl a) = (Inr x1, s1) \<and>
           updateTransactionStatus s1 (txId tx) success None = (Inr r, st')"
    by (auto simp: deposit_try_def split: prod.splits sum.splits)
  with w v c0 r0 show ?thesis by blast
qed

lemma transfer_locked_success_state:
  assumes "transfer_locked st f t u a d = (Inr r, st')"
  shows "\<exists>fw tw s3.
     wallets st f = Some fw \<and> wallets st t = Some tw \<and>
     \<not> parseFloat (balance fw) < a \<and> \<not> parseFloat (transactionLimit fw) < a \<and>
     decimal_12_2 (newFromBalance (parseFloat (balance fw)) a) \<and>
     decimal_12_2 (newToBalance tw a) \<and>
     wallets st' = (wallets st)
        (f \<mapsto> fw\<lparr>balance := newFromBalance (parseFloat (balance fw)) a\<rparr>,
         t \<mapsto> (if t = f then fw else tw)\<lparr>balance := newToBalance tw a\<rparr>) \<and>
     transactions s3 = transactions st @
        [\<lparr>walletId = f, amount = a, txType = transfer_out, paymentMode = ''WalletBalance'',
          status = pending, description = d, recipientWalletId = Some t,
          recipientUserId = Some u, txId = length (transactions st), errorMessage = None\<rparr>,
         \<lparr>walletId = t, amount = a, txType = transfer_in, paymentMode = ''WalletBalance'',
          status = success, description = d, recipientWalletId = Some f,
          recipientUserId = None, txId = Suc (length (transactions st)), errorMessage = None\<rparr>] \<and>
     updateTransactionStatus s3 (length (transactions st)) success None = (Inr r, st') \<and>
     transactions st' = transactions st @
        [\<lparr>walletId = f, amount = a, txType = transfer_out, paymentMode = ''WalletBalance'',
          status = success, description = d, recipientWalletId = Some t,
          recipientUserId = Some u, txId = length (transactions st), errorMessage = None\<rparr>,
         \<lparr>walletId = t, amount = a, txType = transfer_in, paymentMode = ''WalletBalance'',
          status = success, description = d, recipientWalletId = Some f,
          recipientUserId = None, txId = Suc (length (transactions st)), errorMessage = None\<rparr>] \<and>
     r = Some \<lparr>walletId = f, amount = a, txType = transfer_out, paymentMode = ''WalletBalance'',
          status = success, description = d, recipientWalletId = Some t,
          recipientUserId = Some u, txId = length (transactions st), errorMessage = None\<rparr>"
proof -
  let ?oi = "\<lparr>walletId = f, amount = a, txType = transfer_out, paymentMode = ''WalletBalance'',
              status = pending, description = d, recipientWalletId = Some t,
              recipientUserId = Some u\<rparr>"
  let ?ii = "\<lparr>walletId = t, amount = a, txType = transfer_in,
              paymentMode = ''WalletBalance'', status = success,
              description = d,
              recipientWalletId = Some f, recipientUserId = None\<rparr>"
  from transfer_locked_success[OF assms] obtain fw tw out s0 x1 s1 x2 s2 inn s3 where
    w: "wallets st f = Some fw" "wallets st t = Some tw"
    and v: "\<not> parseFloat (balance fw) < a" "\<not> parseFloat (transactionLimit fw) < a"
    and c0: "createTransaction st ?oi = (Inr out, s0)"
    and c1: "updateWalletBalance s0 f (newFromBalance (parseFloat (balance fw)) a) = (Inr x1, s1)"
    and c2: "updateWalletBalance s1 t (newToBalance tw a) = (Inr x2, s2)"
    and c3: "createTransaction s2 ?ii = (Inr inn, s3)"
    and c4: "updateTransactionStatus s3 (txId out) success None = (Inr r, st')"
    by blast
  let ?nf = "newFromBalance (parseFloat (balance fw)) a"
  let ?nt = "newToBalance tw a"
  note r0 = createTransaction_result(5)[OF c0 refl] and w0 = createTransaction_result(1)[OF c0]
  note r1 = updateWalletBalance_result(5)[OF c1 refl] and t1 = updateWalletBalance_result(1)[OF c1]
  note r2 = updateWalletBalance_result(5)[OF c2 refl] and t2 = updateWalletBalance_result(1)[OF c2]
  note r3 = createTransaction_result(5)[OF c3 refl] and w3 = createTransaction_result(1)[OF c3]
  have out: "out = \<lparr>walletId = f, amount = a, txType = transfer_out, paymentMode = ''WalletBalance'',
          status = pending, description = d, recipientWalletId = Some t,
          recipientUserId = Some u, txId = length (transactions st), errorMessage = None\<rparr>"
    using r0 by (intro transaction.equality) simp_all
  have ts2: "transactions s2 = transactions st @ [out]" using r0 t1 t2 by simp
  have inn: "inn = \<lparr>walletId = t, amount = a, txType = transfer_in, paymentMode = ''WalletBalance'',
          status = success, description = d, recipientWalletId = Some f,
          recipientUserId = None, txId = Suc (length (transactions st)), errorMessage = None\<rparr>"
    using r3 ts2 by (intro transaction.equality) simp_all
  have ts3: "transactions s3 = transactions st @ [out, inn]" using r3 ts2 by simp
  have io: "txId out = length (transactions st)" using r0 by simp
  then have lt: "txId out < length (transactions s3)" using ts3 by simp
  from updateTransactionStatus_result(6)[OF c4 refl lt] ts3 io
  have ts': "transactions st' = transactions st @ [out\<lparr>status := success\<rparr>, inn]"
    and r: "r = Some (out\<lparr>status := success\<rparr>)"
    by (simp_all add: nth_append)
  have ws1: "wallets s1 = (wallets st)(f \<mapsto> fw\<lparr>balance := ?nf\<rparr>)" and d1: "decimal_12_2 ?nf"
    using r1 w0 w by auto
  have "wallets s1 t = Some ((if t = f then fw\<lparr>balance := ?nf\<rparr> else tw))"
    using ws1 w by simp
  with r2 have ws2: "wallets s2 = (wallets s1)(t \<mapsto> (if t = f then fw\<lparr>balance := ?nf\<rparr> else tw)\<lparr>balance := ?nt\<rparr>)"
    and d2: "decimal_12_2 ?nt" by auto
  have "wallets st' = wallets s2"
    using updateTransactionStatus_result(1)[OF c4] w3 by simp
  with ws1 ws2 have ws': "wallets st' = (wallets st)
        (f \<mapsto> fw\<lparr>balance := ?nf\<rparr>, t \<mapsto> (if t = f then fw else tw)\<lparr>balance := ?nt\<rparr>)"
    by auto
  from c4 io have c4': "updateTransactionStatus s3 (length (transactions st)) success None = (Inr r, st')"
    by simp
  show ?thesis
    using w v d1 d2 ws' ts3 c4' ts' r unfolding out inn
    by (intro exI[of _ fw] exI[of _ tw] exI[of _ s3]) simp
qed

lemma transfer_SomeD:
  assumes "transfer p f t u a d = Some (r, p')"
  shows "f \<noteq> t" and "transfer_locked (db p) f t u a d = (r, db p')"
    and "walletLocks p' = (walletLocks p)(f \<mapsto> False, t \<mapsto> False)"
    and "walletLocks p f \<noteq> Some True" and "walletLocks p t \<noteq> Some True"
proof -
  from assms show ne: "f \<noteq> t" by (auto simp: transfer_self)
  from assms show free: "walletLocks p f \<noteq> Some True" "walletLocks p t \<noteq> Some True"
    by (auto simp: transfer_def runExclusive_def getWalletLock_def Let_def split: if_splits option.splits)
  from assms transfer_eq[OF ne free, of u a d]
  show "transfer_locked (db p) f t u a d = (r, db p')"
    and "walletLocks p' = (walletLocks p)(f \<mapsto> False, t \<mapsto> False)"
    by (auto simp: prod_eq_iff)
qed

lemma deposit_SomeD:
  assumes "deposit p w a m d = Some (r, p')"
  shows "deposit_locked (db p) w a m d = (r, db p')"
    and "walletLocks p' = (walletLocks p)(w \<mapsto> False)"
    and "walletLocks p w \<noteq> Some True"
proof -
  from assms show free: "walletLocks p w \<noteq> Some True"
    by (auto simp: deposit_def runExclusive_def getWalletLock_def Let_def split: if_splits option.splits)
  from assms deposit_eq[OF free, of a m d]
  show "deposit_locked (db p) w a m d = (r, db p')"
    and "walletLocks p' = (walletLocks p)(w \<mapsto> False)"
    by (auto simp: prod_eq_iff)
qed

lemma ledger_transfer_500:
  "transfer (ledger 50000 0 []) ''A'' ''B'' ''bob'' 500 None =
     Some (Inr (Some \<lparr>walletId = ''A'', amount = 500, txType = transfer_out,
                      paymentMode = ''WalletBalance'', status = success, description = None,
                      recipientWalletId = Some ''B'', recipientUserId = Some ''bob'',
                      txId = 0, errorMessage = None\<rparr>),
           \<lparr>db = \<lparr>wallets =
                    [''A'' \<mapsto> \<lparr>userId = ''alice'', balance = 50000, walletType = ''Basic'',
                               transactionLimit = 100000\<rparr>,
                     ''B'' \<mapsto> \<lparr>userId = ''bob'', balance = 0, walletType = ''Basic'',
                               transactionLimit = 100000\<rparr>,
                     ''A'' \<mapsto> \<lparr>userId = ''alice'', balance = 0, walletType = ''Basic'',
                               transactionLimit = 100000\<rparr>,
                     ''B'' \<mapsto> \<lparr>userId = ''bob'', balance = 50000, walletType = ''Basic'',
                               transactionLimit = 100000\<rparr>],
                  transactions =
                    [\<lparr>walletId = ''A'', amount = 500, txType = transfer_out,
                      paymentMode = ''WalletBalance'', status = success, description = None,
                      recipientWalletId = Some ''B'', recipientUserId = Some ''bob'',
                      txId = 0, errorMessage = None\<rparr>,
                     \<lparr>walletId = ''B'', amount = 500, txType = transfer_in,
                      paymentMode = ''WalletBalance'', status = success, description = None,
                      recipientWalletId = Some ''A'', recipientUserId = None,
                      txId = 1, errorMessage = None\<rparr>],
                  walletCounter = 2, faults = [],
                  journal =
                    [InsertTransaction
                       \<lparr>walletId = ''A'', amount = 500, txType = transfer_out,
                        paymentMode = ''WalletBalance'', status = pending, description = None,
                        recipientWalletId = Some ''B'', recipientUserId = Some ''bob'',
                        txId = 0, errorMessage = None\<rparr>,
                     SetBalance ''A'' 0,
                     SetBalance ''B'' 50000,
                     InsertTransaction
                       \<lparr>walletId = ''B'', amount = 500, txType = transfer_in,
                        paymentMode = ''WalletBalance'', status = success, description = None,
                        recipientWalletId = Some ''A'', recipientUserId = None,
                        txId = 1, errorMessage = None\<rparr>,
                     SetStatus 0 success None]\<rparr>,
            walletLocks = [''A'' \<mapsto> False, ''B'' \<mapsto> False]\<rparr>)"
  by (simp add: transfer_eq ledger_simps transfer_locked_def parseFloat_1000 parseFloat_500
        createTransaction_def next_fault_def ledger_db transfer_try_def updateWalletBalance_def
        updateTransactionStatus_def Let_def newFromBalance_def newToBalance_def
        debit_500 credit_500 decimal_12_2_def)

lemma transfer_locked_success_journal:
  assumes "transfer_locked st f t u a d = (Inr r, st')"
  shows "\<exists>fw tw.
     wallets st f = Some fw \<and> wallets st t = Some tw \<and>
     journal st' = journal st @
        [InsertTransaction
           \<lparr>walletId = f, amount = a, txType = transfer_out, paymentMode = ''WalletBalance'',
            status = pending, description = d, recipientWalletId = Some t,
            recipientUserId = Some u, txId = length (transactions st), errorMessage = None\<rparr>,
         SetBalance f (newFromBalance (parseFloat (balance fw)) a),
         SetBalance t (newToBalance tw a),
         InsertTransaction
           \<lparr>walletId = t, amount = a, txType = transfer_in, paymentMode = ''WalletBalance'',
            status = success, description = d, recipientWalletId = Some f,
            recipientUserId = None, txId = Suc (length (transactions st)), errorMessage = None\<rparr>,
         SetStatus (length (transactions st)) success None]"
proof -
  let ?oi = "\<lparr>walletId = f, amount = a, txType = transfer_out, paymentMode = ''WalletBalance'',
              status = pending, description = d, recipientWalletId = Some t,
              recipientUserId = Some u\<rparr>"
  let ?ii = "\<lparr>walletId = t, amount = a, txType = transfer_in,
              paymentMode = ''WalletBalance'', status = success,
              description = d,
              recipientWalletId = Some f, recipientUserId = None\<rparr>"
  from transfer_locked_success[OF assms] obtain fw tw out s0 x1 s1 x2 s2 inn s3 where
    w: "wallets st f = Some fw" "wallets st t = Some tw"
    and c0: "createTransaction st ?oi = (Inr out, s0)"
    and c1: "updateWalletBalance s0 f (newFromBalance (parseFloat (balance fw)) a) = (Inr x1, s1)"
    and c2: "updateWalletBalance s1 t (newToBalance tw a) = (Inr x2, s2)"
    and c3: "createTransaction s2 ?ii = (Inr inn, s3)"
    and c4: "updateTransactionStatus s3 (txId out) success None = (Inr r, st')"
    by blast
  note r0 = createTransaction_result(5)[OF c0 refl]
  note t1 = updateWalletBalance_result(1)[OF c1]
  note t2 = updateWalletBalance_result(1)[OF c2]
  note r3 = createTransaction_result(5)[OF c3 refl]
  have out: "out = \<lparr>walletId = f, amount = a, txType = transfer_out, paymentMode = ''WalletBalance'',
          status = pending, description = d, recipientWalletId = Some t,
          recipientUserId = Some u, txId = length (transactions st), errorMessage = None\<rparr>"
    using r0 by (intro transaction.equality) simp_all
  have ts2: "transactions s2 = transactions st @ [out]" using r0 t1 t2 by simp
  have inn: "inn = \<lparr>walletId = t, amount = a, txType = transfer_in, paymentMode = ''WalletBalance'',
          status = success, description = d, recipientWalletId = Some f,
          recipientUserId = None, txId = Suc (length (transactions st)), errorMessage = None\<rparr>"
    using r3 ts2 by (intro transaction.equality) simp_all
  have io: "txId out = length (transactions st)" using r0 by simp
  have lt: "txId out < length (transactions s3)" using r3 ts2 io by simp
  have "journal st' = journal st @
          [InsertTransaction out, SetBalance f (newFromBalance (parseFloat (balance fw)) a),
           SetBalance t (newToBalance tw a), InsertTransaction inn, SetStatus (txId out) success None]"
    using createTransaction_journal[OF c0] updateWalletBalance_journal[OF c1]
      updateWalletBalance_journal[OF c2] createTransaction_journal[OF c3]
      updateTransactionStatus_journal[OF c4 lt]
    by simp
  then show ?thesis
    using w io unfolding out inn by (intro exI[of _ fw] exI[of _ tw]) simp
qed

text \<open>
  C6. A transfer that succeeds makes five writes, in this order: it inserts the
  \<open>transfer_out\<close> record on the sender's wallet, naming the recipient's wallet and
  user, with status \<open>pending\<close>; it sets the sender's balance; it sets the recipient's
  balance; it inserts the \<open>transfer_in\<close> record on the recipient's wallet, naming the
  sender's wallet, with status \<open>success\<close>; and last it sets the status of the
  \<open>transfer_out\<close> record to \<open>success\<close>. The transaction table ends with exactly two
  records more than before, these two, both with the amount of the transfer and both
  with status \<open>success\<close>, and the call returns the \<open>transfer_out\<close> record.
\<close>

theorem transfer_record_pair:
  assumes "transfer p f t u a d = Some (Inr r, p')"
  shows "\<exists>fw tw.
     wallets (db p) f = Some fw \<and> wallets (db p) t = Some tw \<and>
     journal (db p') = journal (db p) @
        [InsertTransaction
           \<lparr>walletId = f, amount = a, txType = transfer_out, paymentMode = ''WalletBalance'',
            status = pending, description = d, recipientWalletId = Some t,
            recipientUserId = Some u, txId = length (transactions (db p)), errorMessage = None\<rparr>,
         SetBalance f (newFromBalance (parseFloat (balance fw)) a),
         SetBalance t (newToBalance tw a),
         InsertTransaction
           \<lparr>walletId = t, amount = a, txType = transfer_in, paymentMode = ''WalletBalance'',
            status = success, description = d, recipientWalletId = Some f,
            recipientUserId = None, txId = Suc (length (transactions (db p))),
            errorMessage = None\<rparr>,
         SetStatus (length (transactions (db p))) success None] \<and>
     transactions (db p') = transactions (db p) @
        [\<lparr>walletId = f, amount = a, txType = transfer_out, paymentMode = ''WalletBalance'',
          status = success, description = d, recipientWalletId = Some t,
          recipientUserId = Some u, txId = length (transactions (db p)), errorMessage = None\<rparr>,
         \<lparr>walletId = t, amount = a, txType = transfer_in, paymentMode = ''WalletBalance'',
          status = success, description = d, recipientWalletId = Some f,
          recipientUserId = None, txId = Suc (length (transactions (db p))),
          errorMessage = None\<rparr>] \<and>
     r = Some \<lparr>walletId = f, amount = a, txType = transfer_out, paymentMode = ''WalletBalance'',
          status = success, description = d, recipientWalletId = Some t,
          recipientUserId = Some u, txId = length (transactions (db p)), errorMessage = None\<rparr>"
proof -
  note l = transfer_SomeD(2)[OF assms]
  from transfer_locked_success_journal[OF l] obtain fw tw where
    j: "wallets (db p) f = Some fw" "wallets (db p) t = Some tw"
       "journal (db p') = journal (db p) @
        [InsertTransaction
           \<lparr>walletId = f, amount = a, txType = transfer_out, paymentMode = ''WalletBalance'',
            status = pending, description = d, recipientWalletId = Some t,
            recipientUserId = Some u, txId = length (transactions (db p)), errorMessage = None\<rparr>,
         SetBalance f (newFromBalance (parseFloat (balance fw)) a),
         SetBalance t (newToBalance tw a),
         InsertTransaction
           \<lparr>walletId = t, amount = a, txType = transfer_in, paymentMode = ''WalletBalance'',
            status = success, description = d, recipientWalletId = Some f,
            recipientUserId = None, txId = Suc (length (transactions (db p))),
            errorMessage = None\<rparr>,
         SetStatus (length (transactions (db p))) success None]"
    by blast
  from transfer_locked_success_state[OF l] j show ?thesis by auto
qed

theorem transfer_record_pair_witness:
  "journal (db (snd (the (transfer (ledger 50000 0 []) ''A'' ''B'' ''bob'' 500 None)))) =
     [InsertTransaction
        \<lparr>walletId = ''A'', amount = 500, txType = transfer_out, paymentMode = ''WalletBalance'',
         status = pending, description = None, recipientWalletId = Some ''B'',
         recipientUserId = Some ''bob'', txId = 0, errorMessage = None\<rparr>,
      SetBalance ''A'' 0,
      SetBalance ''B'' 50000,
      InsertTransaction
        \<lparr>walletId = ''B'', amount = 500, txType = transfer_in, paymentMode = ''WalletBalance'',
         status = success, description = None, recipientWalletId = Some ''A'',
         recipientUserId = None, txId = 1, errorMessage = None\<rparr>,
      SetStatus 0 success None] \<and>
   tx_log (snd (the (transfer (ledger 50000 0 []) ''A'' ''B'' ''bob'' 500 None))) =
     [(transfer_out, success, None), (transfer_in, success, None)]"
  using transfer_record_pair[OF ledger_transfer_500]
  by (simp add: ledger_transfer_500 tx_log_def)

section \<open>Exact balances\<close>

lemma deposit_locked_success_state:
  assumes "deposit_locked st w a m d = (Inr r, st')"
  shows "\<exists>wl. wallets st w = Some wl \<and> \<not> parseFloat (transactionLimit wl) < a \<and>
           decimal_12_2 (newBalance wl a) \<and>
           wallets st' = (wallets st)(w \<mapsto> wl\<lparr>balance := newBalance wl a\<rparr>) \<and>
           transactions st' = transactions st @
             [\<lparr>walletId = w, amount = a, txType = deposit_t, paymentMode = m, status = success,
               description = d, recipientWalletId = None, recipientUserId = None,
               txId = length (transactions st), errorMessage = None\<rparr>]"
proof -
  let ?ins = "\<lparr>walletId = w, amount = a, txType = deposit_t, paymentMode = m, status = pending,
              description = d, recipientWalletId = None, recipientUserId = None\<rparr>"
  from deposit_locked_success[OF assms] obtain wl tx s0 x1 s1 where
    w: "wallets st w = Some wl" and v: "\<not> parseFloat (transactionLimit wl) < a"
    and c0: "createTransaction st ?ins = (Inr tx, s0)"
    and c1: "updateWalletBalance s0 w (newBalance wl a) = (Inr x1, s1)"
    and c2: "updateTransactionStatus s1 (txId tx) success None = (Inr r, st')"
    by blast
  note r0 = createTransaction_result(5)[OF c0 refl] and w0 = createTransaction_result(1)[OF c0]
  note r1 = updateWalletBalance_result(5)[OF c1 refl] and t1 = updateWalletBalance_result(1)[OF c1]
  have tx: "tx = \<lparr>walletId = w, amount = a, txType = deposit_t, paymentMode = m, status = pending,
               description = d, recipientWalletId = None, recipientUserId = None,
               txId = length (transactions st), errorMessage = None\<rparr>"
    using r0 by (intro transaction.equality) simp_all
  have ts1: "transactions s1 = transactions st @ [tx]" using r0 t1 by simp
  have io: "txId tx = length (transactions st)" using r0 by simp
  then have lt: "txId tx < length (transactions s1)" using ts1 by simp
  from updateTransactionStatus_result(6)[OF c2 refl lt] ts1 io
  have ts': "transactions st' = transactions st @ [tx\<lparr>status := success\<rparr>]"
    by (simp add: nth_append)
  have ws1: "wallets s1 = (wallets st)(w \<mapsto> wl\<lparr>balance := newBalance wl a\<rparr>)"
    and d1: "decimal_12_2 (newBalance wl a)"
    using r1 w0 w by auto
  have "wallets st' = wallets s1" using updateTransactionStatus_result(1)[OF c2] by simp
  with w v d1 ws1 ts' show ?thesis unfolding tx by simp
qed

lemma deposit_exact:
  assumes "deposit p w (number_of_cents k) m d = Some (Inr r, p')"
    and "wallets (db p) w = Some wl" and "decimal_12_2 (balance wl)" and "\<bar>k\<bar> < 2 * 10 ^ 12"
  shows "balance_of p' w = Some (balance wl + k)"
proof -
  from deposit_locked_success_state[OF deposit_SomeD(1)[OF assms(1)]] assms(2)
  have "wallets (db p') = (wallets (db p))(w \<mapsto> wl\<lparr>balance := newBalance wl (number_of_cents k)\<rparr>)"
    by auto
  then show ?thesis
    using exact_add[OF assms(3,4)] by (simp add: balance_of_def newBalance_def)
qed

lemma transfer_exact:
  assumes "transfer p f t u (number_of_cents k) d = Some (Inr r, p')"
    and "wallets (db p) f = Some fw" and "wallets (db p) t = Some tw"
    and "decimal_12_2 (balance fw)" and "decimal_12_2 (balance tw)" and "\<bar>k\<bar> < 2 * 10 ^ 12"
  shows "balance_of p' f = Some (balance fw - k)" and "balance_of p' t = Some (balance tw + k)"
proof -
  note ne = transfer_SomeD(1)[OF assms(1)]
  from transfer_locked_success_state[OF transfer_SomeD(2)[OF assms(1)]] assms(2,3) ne
  have "wallets (db p') = (wallets (db p))
        (f \<mapsto> fw\<lparr>balance := newFromBalance (parseFloat (balance fw)) (number_of_cents k)\<rparr>,
         t \<mapsto> tw\<lparr>balance := newToBalance tw (number_of_cents k)\<rparr>)"
    by auto
  then show "balance_of p' f = Some (balance fw - k)" and "balance_of p' t = Some (balance tw + k)"
    using exact_add[OF assms(5,6)] exact_sub[OF assms(4,6)] ne
    by (simp_all add: balance_of_def newToBalance_def newFromBalance_def)
qed

lemma number_of_cents_50000: "number_of_cents 50000 = 500"
  by code_simp

lemma parseFloat_10: "parseFloat 1000 = 10"
  by code_simp

lemma debit_eighth: "toFixed2 (fsub 10 (1/8)) = 988"
  by code_simp

lemma credit_eighth: "toFixed2 (fadd (parseFloat 0) (1/8)) = 13"
  by code_simp

lemma limit_above_20: "\<not> parseFloat 100000 < number_of_cents 20"
  by code_simp

text \<open>
  C4. For a stored balance and an amount that are exact two-decimal values of the
  columns' range (the amount being the number nearest to its decimal), the balance that
  a deposit computes, and the two balances that a transfer computes, are the exact sum
  and the exact difference, again a whole number of hundredths: the roundings of the
  binary64 operations are all undone by \<^verbatim>\<open>toFixed(2)\<close>. These are the balances stored
  by a deposit and by a transfer that succeed.
\<close>

theorem exact_fixed_point:
  assumes "decimal_12_2 (balance wl)" and "decimal_12_2 k"
  shows "newBalance wl (number_of_cents k) = balance wl + k \<and>
         newFromBalance (parseFloat (balance wl)) (number_of_cents k) = balance wl - k \<and>
         newToBalance wl (number_of_cents k) = balance wl + k \<and>
         (\<forall>p w m d r p'.
            wallets (db p) w = Some wl \<and>
            deposit p w (number_of_cents k) m d = Some (Inr r, p') \<longrightarrow>
            balance_of p' w = Some (balance wl + k)) \<and>
         (\<forall>p f t tw u d r p'.
            wallets (db p) f = Some wl \<and> wallets (db p) t = Some tw \<and>
            decimal_12_2 (balance tw) \<and>
            transfer p f t u (number_of_cents k) d = Some (Inr r, p') \<longrightarrow>
            balance_of p' f = Some (balance wl - k) \<and>
            balance_of p' t = Some (balance tw + k))"
proof -
  from assms(2) have k: "\<bar>k\<bar> < 2 * 10 ^ 12" by (simp add: decimal_12_2_def)
  show ?thesis
    using exact_add[OF assms(1) k] exact_sub[OF assms(1) k] assms(1) k
    by (auto simp: newBalance_def newFromBalance_def newToBalance_def
        intro: deposit_exact transfer_exact)
qed

theorem exact_fixed_point_witness:
  "newBalance \<lparr>userId = ''alice'', balance = 10, walletType = ''Basic'', transactionLimit = 100000\<rparr>
     (number_of_cents 20) = 30 \<and>
   newFromBalance (parseFloat 30) (number_of_cents 20) = 10 \<and>
   map_option (balances [''A''] \<circ> snd)
     (deposit (ledger 10 0 []) ''A'' (number_of_cents 20) ''UPI'' None) = Some [Some 30]"
proof -
  let ?A = "\<lparr>userId = ''alice'', balance = 10, walletType = ''Basic'', transactionLimit = 100000\<rparr>"
  let ?A' = "\<lparr>userId = ''alice'', balance = 30, walletType = ''Basic'', transactionLimit = 100000\<rparr>"
  note e1 = exact_fixed_point[of ?A 20] and e2 = exact_fixed_point[of ?A' 20]
  from e1 have nb: "newBalance ?A (number_of_cents 20) = 30" by (simp add: decimal_12_2_def)
  from e2 have nf: "newFromBalance (parseFloat 30) (number_of_cents 20) = 10"
    by (simp add: decimal_12_2_def)
  obtain r p' where d: "deposit (ledger 10 0 []) ''A'' (number_of_cents 20) ''UPI'' None = Some (Inr r, p')"
    by (simp add: deposit_eq ledger_simps deposit_locked_def limit_above_20 createTransaction_def
          next_fault_def ledger_db deposit_try_def updateWalletBalance_def
          updateTransactionStatus_def Let_def nb decimal_12_2_def)
  from e1 have "\<forall>p w m d r p'. wallets (db p) w = Some ?A \<and>
      deposit p w (number_of_cents 20) m d = Some (Inr r, p') \<longrightarrow> balance_of p' w = Some 30"
    by (simp add: decimal_12_2_def)
  with d ledger_simps(1)[of 10 0 "[]"] have "balance_of p' ''A'' = Some 30"
    by blast
  with d nb nf show ?thesis by (simp add: balances_def)
qed

text \<open>
  C1, as the code has it. A transfer that succeeds, of an amount that is a whole number
  \<open>k > 0\<close> of hundredths, between two wallets whose balances are in the range of their
  column: the sender's stored balance has gone down by exactly \<open>k\<close>, the recipient's has
  gone up by exactly \<open>k\<close>, and the sum of the two is what it was.
\<close>

theorem transfer_conservation:
  assumes "transfer p f t u (number_of_cents k) d = Some (Inr r, p')"
    and "wallets (db p) f = Some fw" and "wallets (db p) t = Some tw"
    and "decimal_12_2 (balance fw)" and "decimal_12_2 (balance tw)" and "0 < k"
  shows "\<exists>x y. balance_of p' f = Some x \<and> balance_of p' t = Some y \<and>
           x = balance fw - k \<and> y = balance tw + k \<and>
           x + y = balance fw + balance tw"
proof -
  from transfer_locked_success_state[OF transfer_SomeD(2)[OF assms(1)]] assms(2)
  have "\<not> parseFloat (balance fw) < number_of_cents k" by auto
  from amount_bounded[OF assms(4) _ this] assms(6) have "\<bar>k\<bar> < 2 * 10 ^ 12" by simp
  from transfer_exact[OF assms(1-5) this] show ?thesis by simp
qed

theorem transfer_conservation_witness:
  "balances [''A'', ''B'']
     (snd (the (transfer (ledger 50000 0 []) ''A'' ''B'' ''bob'' (number_of_cents 50000) None))) =
   [Some 0, Some 50000]"
proof -
  obtain r p' where t: "transfer (ledger 50000 0 []) ''A'' ''B'' ''bob'' (number_of_cents 50000) None =
      Some (Inr r, p')"
    using ledger_transfer_500 by (simp add: number_of_cents_50000)
  from transfer_conservation[OF t ledger_simps(1) ledger_simps(2)]
  have "balance_of p' ''A'' = Some 0 \<and> balance_of p' ''B'' = Some 50000"
    by (simp add: decimal_12_2_def)
  with t show ?thesis by (simp add: balances_def)
qed

text \<open>
  C1 as stated fails for an amount that is not a whole number of hundredths. From a
  balance of 10.00, a transfer of 0.125 to an empty wallet succeeds; \<^verbatim>\<open>(9.875).toFixed(2)\<close>
  is 9.88 and \<^verbatim>\<open>(0.125).toFixed(2)\<close> is 0.13, so the sender has lost 0.12, the recipient
  has gained 0.13, and the sum has grown from 10.00 to 10.01.
\<close>

theorem conservation_counterexample:
  "map_option (isl \<circ> fst) (transfer (ledger 1000 0 []) ''A'' ''B'' ''bob'' (1/8) None) = Some False \<and>
   map_option (balances [''A'', ''B''] \<circ> snd)
     (transfer (ledger 1000 0 []) ''A'' ''B'' ''bob'' (1/8) None) = Some [Some 988, Some 13] \<and>
   balances [''A'', ''B''] (ledger 1000 0 []) = [Some 1000, Some 0] \<and>
   (988::int) + 13 \<noteq> 1000 + 0 \<and>
   (0::rat) < 1/8 \<and> \<not> parseFloat 1000 < 1/8 \<and> \<not> parseFloat 100000 < 1/8"
  by (simp add: transfer_eq ledger_simps transfer_locked_def parseFloat_1000 parseFloat_10
        createTransaction_def next_fault_def ledger_db transfer_try_def updateWalletBalance_def
        updateTransactionStatus_def Let_def newFromBalance_def newToBalance_def
        debit_eighth credit_eighth decimal_12_2_def balances_def balance_of_def)

section \<open>Balances stay above zero\<close>

lemma nonneg_update:
  assumes "nonneg st" and "0 \<le> nb" and "updateWalletBalance st w nb = (r, st')"
  shows "nonneg st'"
  using updateWalletBalance_result(4)[OF assms(3)] assms(1,2)
  by (auto simp: nonneg_def split: if_splits)

lemma nonneg_wallets: "nonneg st \<Longrightarrow> wallets st' = wallets st \<Longrightarrow> nonneg st'"
  by (simp add: nonneg_def)

lemma nonneg_catch:
  assumes "nonneg st" and "catch_markFailed st i err = (r, st')"
  shows "nonneg st'"
proof (cases "updateTransactionStatus st i failed (Some (message err))")
  case (Pair r1 st1)
  with assms(2) have "st' = st1" by (cases r1) (simp_all add: catch_markFailed_def)
  with updateTransactionStatus_result(1)[OF Pair] assms(1) show ?thesis
    by (auto intro: nonneg_wallets)
qed

lemma nonneg_deposit_try:
  assumes "nonneg st" and "0 \<le> newBalance wl a" and "deposit_try st w wl a tx = (r, st')"
  shows "nonneg st'"
proof (cases "updateWalletBalance st w (newBalance wl a)")
  case (Pair r1 st1)
  note n1 = nonneg_update[OF assms(1,2) Pair]
  show ?thesis
  proof (cases r1)
    case (Inl e)
    with Pair assms(3) n1 show ?thesis by (simp add: deposit_try_def)
  next
    case (Inr x)
    with Pair assms(3) have "updateTransactionStatus st1 (txId tx) success None = (r, st')"
      by (simp add: deposit_try_def)
    from updateTransactionStatus_result(1)[OF this] n1 show ?thesis by (auto intro: nonneg_wallets)
  qed
qed

lemma nonneg_transfer_try:
  assumes "nonneg st" and "0 \<le> newFromBalance cb a" and "0 \<le> newToBalance tw a"
    and "transfer_try st f t cb tw a d tx = (r, st')"
  shows "nonneg st'"
proof (cases "updateWalletBalance st f (newFromBalance cb a)")
  case p1: (Pair r1 st1)
  note n1 = nonneg_update[OF assms(1,2) p1]
  show ?thesis
  proof (cases r1)
    case (Inl e)
    with p1 assms(4) n1 show ?thesis by (simp add: transfer_try_def)
  next
    case i1: (Inr x1)
    show ?thesis
    proof (cases "updateWalletBalance st1 t (newToBalance tw a)")
      case p2: (Pair r2 st2)
      note n2 = nonneg_update[OF n1 assms(3) p2]
      show ?thesis
      proof (cases r2)
        case (Inl e)
        with p1 i1 p2 assms(4) n2 show ?thesis by (simp add: transfer_try_def)
      next
        case i2: (Inr x2)
        show ?thesis
        proof (cases "createTransaction st2
             \<lparr>walletId = t, amount = a, txType = transfer_in,
              paymentMode = ''WalletBalance'', status = success,
              description = d,
              recipientWalletId = Some f, recipientUserId = None\<rparr>")
          case p3: (Pair r3 st3)
          have n3: "nonneg st3" using createTransaction_result(1)[OF p3] n2 by (auto intro: nonneg_wallets)
          show ?thesis
          proof (cases r3)
            case (Inl e)
            with p1 i1 p2 i2 p3 assms(4) n3 show ?thesis by (simp add: transfer_try_def)
          next
            case i3: (Inr x3)
            with p1 i1 p2 i2 p3 assms(4)
            have "updateTransactionStatus st3 (txId tx) success None = (r, st')"
              by (simp add: transfer_try_def)
            from updateTransactionStatus_result(1)[OF this] n3 show ?thesis
              by (auto intro: nonneg_wallets)
          qed
        qed
      qed
    qed
  qed
qed

lemma parseFloat_nonneg: "0 \<le> c \<Longrightarrow> 0 \<le> parseFloat c"
  by (simp add: parseFloat_def rnd_nonneg)

lemma nonneg_deposit_locked:
  assumes "nonneg st" and "0 < a" and "deposit_locked st w a m d = (r, st')"
  shows "nonneg st'"
proof (cases "wallets st w")
  case None
  with assms show ?thesis by (simp add: deposit_locked_def)
next
  case (Some wl)
  with assms(1) have "0 \<le> balance wl" by (simp add: nonneg_def)
  with assms(2) have nb: "0 \<le> newBalance wl a"
    by (simp add: newBalance_def fadd_def toFixed2_nonneg rnd_nonneg parseFloat_nonneg)
  show ?thesis
  proof (cases "parseFloat (transactionLimit wl) < a")
    case True
    with Some assms show ?thesis by (simp add: deposit_locked_def)
  next
    case False
    let ?ins = "\<lparr>walletId = w, amount = a, txType = deposit_t, paymentMode = m, status = pending,
              description = d, recipientWalletId = None, recipientUserId = None\<rparr>"
    obtain r0 s0 where c0: "createTransaction st ?ins = (r0, s0)" by (cases "createTransaction st ?ins")
    have n0: "nonneg s0" using createTransaction_result(1)[OF c0] assms(1) by (auto intro: nonneg_wallets)
    show ?thesis
    proof (cases r0)
      case (Inl e)
      with Some False c0 assms(3) n0 show ?thesis by (simp add: deposit_locked_def)
    next
      case (Inr tx)
      obtain r1 s1 where c1: "deposit_try s0 w wl a tx = (r1, s1)" by (cases "deposit_try s0 w wl a tx")
      note n1 = nonneg_deposit_try[OF n0 nb c1]
      show ?thesis
      proof (cases r1)
        case (Inl err)
        with Some False c0 Inr c1 assms(3) have "catch_markFailed s1 (txId tx) err = (r, st')"
          by (simp add: deposit_locked_def)
        from nonneg_catch[OF n1 this] show ?thesis .
      next
        case (Inr x)
        with Some False c0 \<open>r0 = Inr tx\<close> c1 assms(3) n1 show ?thesis by (simp add: deposit_locked_def)
      qed
    qed
  qed
qed

lemma nonneg_transfer_locked:
  assumes "nonneg st" and "0 < a" and "transfer_locked st f t u a d = (r, st')"
  shows "nonneg st'"
proof (cases "wallets st f")
  case None
  with assms show ?thesis by (simp add: transfer_locked_def)
next
  case sf: (Some fw)
  show ?thesis
  proof (cases "wallets st t")
    case None
    with sf assms show ?thesis by (simp add: transfer_locked_def)
  next
    case st: (Some tw)
    with assms(1) have "0 \<le> balance tw" by (simp add: nonneg_def)
    with assms(2) have nt: "0 \<le> newToBalance tw a"
      by (simp add: newToBalance_def fadd_def toFixed2_nonneg rnd_nonneg parseFloat_nonneg)
    show ?thesis
    proof (cases "parseFloat (balance fw) < a \<or> parseFloat (transactionLimit fw) < a")
      case True
      with sf st assms show ?thesis by (auto simp add: transfer_locked_def Let_def split: if_splits)
    next
      case False
      then have nf: "0 \<le> newFromBalance (parseFloat (balance fw)) a"
        by (simp add: newFromBalance_def fsub_def toFixed2_nonneg rnd_nonneg)
      let ?ins = "\<lparr>walletId = f, amount = a, txType = transfer_out, paymentMode = ''WalletBalance'',
              status = pending, description = d, recipientWalletId = Some t,
              recipientUserId = Some u\<rparr>"
      obtain r0 s0 where c0: "createTransaction st ?ins = (r0, s0)" by (cases "createTransaction st ?ins")
      have n0: "nonneg s0" using createTransaction_result(1)[OF c0] assms(1) by (auto intro: nonneg_wallets)
      show ?thesis
      proof (cases r0)
        case (Inl e)
        with sf st False c0 assms(3) n0 show ?thesis by (simp add: transfer_locked_def Let_def)
      next
        case (Inr tx)
        obtain r1 s1 where c1: "transfer_try s0 f t (parseFloat (balance fw)) tw a d tx = (r1, s1)"
          by (cases "transfer_try s0 f t (parseFloat (balance fw)) tw a d tx")
        note n1 = nonneg_transfer_try[OF n0 nf nt c1]
        show ?thesis
        proof (cases r1)
          case (Inl err)
          with sf st False c0 Inr c1 assms(3) have "catch_markFailed s1 (txId tx) err = (r, st')"
            by (simp add: transfer_locked_def Let_def)
          from nonneg_catch[OF n1 this] show ?thesis .
        next
          case (Inr x)
          with sf st False c0 \<open>r0 = Inr tx\<close> c1 assms(3) n1 show ?thesis
            by (simp add: transfer_locked_def Let_def)
        qed
      qed
    qed
  qed
qed

lemma nonneg_createWallet:
  assumes "nonneg st" and "createWallet st newId u t = (r, st')"
  shows "nonneg st'"
  using assms
  by (auto simp: createWallet_def WalletFactory_createWallet_def next_fault_def Let_def nonneg_def
      split: fault.splits option.splits if_splits list.splits)

lemma apply_op_invariant:
  assumes "valid_op x" and "idle p" and "nonneg (db p)"
  shows "\<exists>p'. apply_op p x = Some p' \<and> idle p' \<and> nonneg (db p')"
proof (cases x)
  case (CreateWallet newId u t)
  obtain r st where c: "createWallet (db p) newId u t = (r, st)"
    by (cases "createWallet (db p) newId u t")
  from nonneg_createWallet[OF assms(3) c] c CreateWallet assms(2) show ?thesis
    by (simp add: idle_def)
next
  case (Deposit w a m d)
  with assms(1) have a: "0 < a" by simp
  obtain r st where c: "deposit_locked (db p) w a m d = (r, st)"
    by (cases "deposit_locked (db p) w a m d")
  from nonneg_deposit_locked[OF assms(3) a c] c Deposit assms(2) show ?thesis
    by (simp add: deposit_eq idle_free) (simp add: idle_def)
next
  case (Transfer f t u a d)
  with assms(1) have a: "0 < a" and ne: "f \<noteq> t" by simp_all
  obtain r st where c: "transfer_locked (db p) f t u a d = (r, st)"
    by (cases "transfer_locked (db p) f t u a d")
  from nonneg_transfer_locked[OF assms(3) a c] c Transfer assms(2) ne show ?thesis
    by (simp add: transfer_eq idle_free) (simp add: idle_def)
qed

lemma run_invariant:
  assumes "\<forall>x \<in> set ops. valid_op x" and "idle p" and "nonneg (db p)"
  shows "\<exists>p'. run p ops = Some p' \<and> idle p' \<and> nonneg (db p')"
  using assms
proof (induction ops arbitrary: p)
  case Nil
  then show ?case by simp
next
  case (Cons x xs)
  from Cons.prems have "valid_op x" by simp
  from apply_op_invariant[OF this Cons.prems(2,3)] obtain p1 where
    s: "apply_op p x = Some p1" and i: "idle p1" and n: "nonneg (db p1)" by blast
  from Cons.prems have "\<forall>x \<in> set xs. valid_op x" by simp
  from Cons.IH[OF this i n] s show ?case by simp
qed

lemma init_invariant: "idle (init fs)" "nonneg (db (init fs))"
  by (simp_all add: init_def idle_def nonneg_def)

lemma debit_200: "toFixed2 (fsub 500 200) = 30000"
  by code_simp

lemma credit_200: "toFixed2 (fadd (parseFloat 0) 200) = 20000"
  by code_simp

lemma example_run:
  "map_option (balances [''A'', ''B''])
     (run (init [])
       [CreateWallet ''A'' ''alice'' ''Basic'', CreateWallet ''B'' ''bob'' ''Basic'',
        Deposit ''A'' 500 ''UPI'' None, Transfer ''A'' ''B'' ''bob'' 200 None]) =
   Some [Some 30000, Some 20000]"
  by (simp add: init_def createWallet_def WalletFactory_createWallet_def
        deposit_eq deposit_locked_def deposit_try_def newBalance_def
        transfer_eq transfer_locked_def parseFloat_1000 parseFloat_500
        createTransaction_def next_fault_def transfer_try_def updateWalletBalance_def
        updateTransactionStatus_def Let_def newFromBalance_def newToBalance_def
        debit_200 credit_200 credit_500 decimal_12_2_def balances_def balance_of_def)

text \<open>
  C7. From a process that has served nothing, after every run of wallet creations,
  deposits and transfers in which each amount is positive and each transfer names two
  different wallets, whatever faults the writes meet and whether the operations succeed
  or are rejected: the run completes, and every wallet of the store has a balance of at
  least zero. This holds after each operation, that is for each prefix of the run.
\<close>

theorem balance_never_negative:
  assumes "\<forall>x \<in> set ops. valid_op x"
  shows "\<exists>p. run (init fs) (take n ops) = Some p \<and>
           (\<forall>w wl. wallets (db p) w = Some wl \<longrightarrow> 0 \<le> balance wl)"
proof -
  from assms have "\<forall>x \<in> set (take n ops). valid_op x"
    by (meson in_set_takeD)
  from run_invariant[OF this init_invariant, of fs] obtain p where
    "run (init fs) (take n ops) = Some p" and "nonneg (db p)" by blast
  then show ?thesis unfolding nonneg_def by blast
qed

theorem balance_never_negative_witness:
  "\<exists>p. run (init [])
          [CreateWallet ''A'' ''alice'' ''Basic'', CreateWallet ''B'' ''bob'' ''Basic'',
           Deposit ''A'' 500 ''UPI'' None, Transfer ''A'' ''B'' ''bob'' 200 None] = Some p \<and>
        balances [''A'', ''B''] p = [Some 30000, Some 20000] \<and>
        0 \<le> the (balance_of p ''A'') \<and> 0 \<le> the (balance_of p ''B'')"
  using balance_never_negative[of
          "[CreateWallet ''A'' ''alice'' ''Basic'', CreateWallet ''B'' ''bob'' ''Basic'',
            Deposit ''A'' 500 ''UPI'' None, Transfer ''A'' ''B'' ''bob'' 200 None]" "[]" 4]
        example_run
  by (auto simp: balances_def balance_of_def)

section \<open>A transfer from a wallet to itself\<close>

lemma transfer_locked_same_wallet:
  assumes w: "wallets st w = Some wl" and nofault: "faults st = []"
    and bal: "\<not> parseFloat (balance wl) < a"
    and lim: "\<not> parseFloat (transactionLimit wl) < a"
    and ranges: "decimal_12_2 (newFromBalance (parseFloat (balance wl)) a)"
                "decimal_12_2 (newToBalance wl a)"
  shows "\<exists>r st'. transfer_locked st w w u a d = (Inr r, st') \<and>
           wallets st' = (wallets st)(w \<mapsto> wl\<lparr>balance := newToBalance wl a\<rparr>)"
  using assms
  by (simp add: transfer_locked_def createTransaction_def next_fault_def transfer_try_def
        updateWalletBalance_def updateTransactionStatus_def Let_def)

lemma debit_256: "toFixed2 (fsub 10 (1/256)) = 1000"
  by code_simp

lemma credit_256: "toFixed2 (fadd 10 (1/256)) = 1000"
  by code_simp

lemma number_of_cents_500: "number_of_cents 500 = 5"
  by code_simp

text \<open>
  C10, as the code has it. The routes never ask for a transfer from a wallet to itself;
  when \<^verbatim>\<open>transfer\<close> is called so all the same: its body, run on its own on a wallet whose
  balance and limit are not below the amount, with no store fault and the two new
  balances in the column's range, raises nothing and leaves the wallet with the balance
  of the credit, which was computed from the snapshot read before the debit and
  overwrites it; for an amount of \<open>k > 0\<close> hundredths that is the old balance plus \<open>k\<close>.
  And the call itself, which takes the wallet's mutex and then waits for it inside,
  never returns.
\<close>

theorem self_transfer:
  assumes w: "wallets st w = Some wl" and nofault: "faults st = []"
    and bal: "\<not> parseFloat (balance wl) < a"
    and lim: "\<not> parseFloat (transactionLimit wl) < a"
    and ranges: "decimal_12_2 (newFromBalance (parseFloat (balance wl)) a)"
                "decimal_12_2 (newToBalance wl a)"
  shows "(\<exists>r st'. transfer_locked st w w u a d = (Inr r, st') \<and>
            wallets st' = (wallets st)(w \<mapsto> wl\<lparr>balance := newToBalance wl a\<rparr>)) \<and>
         (\<forall>k. a = number_of_cents k \<and> 0 < k \<and> decimal_12_2 (balance wl) \<longrightarrow>
            newToBalance wl a = balance wl + k) \<and>
         (\<forall>p. transfer p w w u a d = None)"
proof (intro conjI allI impI)
  show "\<exists>r st'. transfer_locked st w w u a d = (Inr r, st') \<and>
            wallets st' = (wallets st)(w \<mapsto> wl\<lparr>balance := newToBalance wl a\<rparr>)"
    by (rule transfer_locked_same_wallet[OF assms])
next
  fix k assume h: "a = number_of_cents k \<and> 0 < k \<and> decimal_12_2 (balance wl)"
  with bal have "\<bar>k\<bar> < 2 * 10 ^ 12" by (intro amount_bounded[of "balance wl"]) simp_all
  with h show "newToBalance wl a = balance wl + k"
    by (simp add: newToBalance_def exact_add)
next
  fix p show "transfer p w w u a d = None" by (rule transfer_self)
qed

theorem self_transfer_witness:
  "(\<exists>r st'. transfer_locked (db (ledger 1000 0 [])) ''A'' ''A'' ''alice'' (number_of_cents 500) None =
              (Inr r, st') \<and>
            map_option balance (wallets st' ''A'') = Some 1500) \<and>
   transfer (ledger 1000 0 []) ''A'' ''A'' ''alice'' (number_of_cents 500) None = None"
proof -
  let ?A = "\<lparr>userId = ''alice'', balance = 1000, walletType = ''Basic'', transactionLimit = 100000\<rparr>"
  have e: "newFromBalance (parseFloat 1000) (number_of_cents 500) = 500"
    "newToBalance ?A (number_of_cents 500) = 1500"
    using exact_sub[of 1000 500] exact_add[of 1000 500]
    by (simp_all add: newFromBalance_def newToBalance_def decimal_12_2_def)
  have "\<not> parseFloat 1000 < number_of_cents 500" "\<not> parseFloat 100000 < number_of_cents 500"
    by (simp_all add: parseFloat_10 parseFloat_1000 number_of_cents_500)
  with self_transfer[of "db (ledger 1000 0 [])" "''A''" ?A "number_of_cents 500" "''alice''" None] e
  show ?thesis
    by (auto simp: ledger_simps decimal_12_2_def)
qed

text \<open>
  C10 as stated fails for an amount that is not a whole number of hundredths. On a
  balance of 10.00 the body run with the amount \<open>1/256\<close> succeeds, and
  \<^verbatim>\<open>(10 + 0.00390625).toFixed(2)\<close> is 10.00: the balance is left as it was, not
  increased by the amount.
\<close>

theorem self_transfer_counterexample:
  "isl (fst (transfer_locked (db (ledger 1000 0 [])) ''A'' ''A'' ''alice'' (1/256) None)) = False \<and>
   map_option balance
     (wallets (snd (transfer_locked (db (ledger 1000 0 [])) ''A'' ''A'' ''alice'' (1/256) None)) ''A'') =
     Some 1000 \<and>
   map_option balance (wallets (db (ledger 1000 0 [])) ''A'') = Some 1000 \<and>
   (0::rat) < 1/256 \<and> \<not> parseFloat 1000 < 1/256 \<and> \<not> parseFloat 100000 < 1/256"
  by (simp add: ledger_simps transfer_locked_def parseFloat_1000 parseFloat_10
        createTransaction_def next_fault_def ledger_db transfer_try_def updateWalletBalance_def
        updateTransactionStatus_def Let_def newFromBalance_def newToBalance_def
        debit_256 credit_256 decimal_12_2_def)

section \<open>Two transfers in opposite directions\<close>

lemma locks_called:
  "lock1 (called x y u a d) = min x y" "lock2 (called x y u a d) = max x y"
  by (auto simp: lock1_def lock2_def called_def min_def max_def)

lemma lock_pc [simp]:
  "lock1 (t\<lparr>t_pc := x\<rparr>) = lock1 t" "lock2 (t\<lparr>t_pc := x\<rparr>) = lock2 t"
  "lock1 (t\<lparr>t_result := r\<rparr>) = lock1 t" "lock2 (t\<lparr>t_result := r\<rparr>) = lock2 t"
  by (simp_all add: lock1_def lock2_def)

lemma holds2_holds1: "holds2 x \<Longrightarrow> holds1 x"
  by (cases x) simp_all

lemma call_step_left:
  assumes "call_step t p = Some (t', p')"
  shows "steps_left (t_pc t) = Suc (steps_left (t_pc t'))"
  using assms
  by (cases "t_pc t") (auto simp: call_step_def split: if_splits prod.splits)

lemma lock_inv_first:
  assumes inv: "lock_inv l1 l2 (a, b, p)" and ne: "l1 \<noteq> l2"
    and st: "call_step a p = Some (a', p')"
  shows "lock_inv l1 l2 (a', b, p')"
proof -
  from inv have l: "lock1 a = l1" "lock2 a = l2" "lock1 b = l1" "lock2 b = l2"
    and h1: "(walletLocks p l1 = Some True) = (holds1 (t_pc a) \<or> holds1 (t_pc b))"
    and h2: "(walletLocks p l2 = Some True) = (holds2 (t_pc a) \<or> holds2 (t_pc b))"
    and ex: "\<not> (holds1 (t_pc a) \<and> holds1 (t_pc b))"
    and ra: "steps_left (t_pc a) \<le> 2 \<longrightarrow> t_result a \<noteq> None"
    and rb: "steps_left (t_pc b) \<le> 2 \<longrightarrow> t_result b \<noteq> None"
    by (simp_all add: lock_inv_def)
  have nb: "holds1 (t_pc a) \<Longrightarrow> \<not> holds2 (t_pc b)" using ex holds2_holds1 by blast
  show ?thesis
  proof (cases "t_pc a")
    case Acquire1
    with st l have "walletLocks p l1 \<noteq> Some True" "a' = a\<lparr>t_pc := Acquire2\<rparr>"
      "p' = p\<lparr>walletLocks := (walletLocks p)(l1 \<mapsto> True)\<rparr>"
      by (auto simp: call_step_def split: if_splits)
    with Acquire1 l h1 h2 ex ra rb ne show ?thesis
      by (simp add: lock_inv_def)
  next
    case Acquire2
    with st l have "a' = a\<lparr>t_pc := Body\<rparr>"
      "p' = p\<lparr>walletLocks := (walletLocks p)(l2 \<mapsto> True)\<rparr>"
      by (auto simp: call_step_def split: if_splits)
    with Acquire2 l h1 h2 ex ra rb ne show ?thesis
      by (simp add: lock_inv_def)
  next
    case Body
    with st obtain r s where "a' = a\<lparr>t_pc := Release2, t_result := Some r\<rparr>" "p' = p\<lparr>db := s\<rparr>"
      by (auto simp: call_step_def split: prod.splits)
    with Body l h1 h2 ex ra rb ne show ?thesis
      by (simp add: lock_inv_def)
  next
    case Release2
    with st l have "a' = a\<lparr>t_pc := Release1\<rparr>"
      "p' = p\<lparr>walletLocks := (walletLocks p)(l2 \<mapsto> False)\<rparr>"
      by (auto simp: call_step_def)
    with Release2 l h1 h2 ex ra rb ne nb show ?thesis
      by (simp add: lock_inv_def)
  next
    case Release1
    with st l have "a' = a\<lparr>t_pc := Returned\<rparr>"
      "p' = p\<lparr>walletLocks := (walletLocks p)(l1 \<mapsto> False)\<rparr>"
      by (auto simp: call_step_def)
    with Release1 l h1 h2 ex ra rb ne show ?thesis
      by (simp add: lock_inv_def)
  next
    case Returned
    with st show ?thesis by (simp add: call_step_def)
  qed
qed

lemma lock_inv_sym: "lock_inv l1 l2 (a, b, p) = lock_inv l1 l2 (b, a, p)"
  by (auto simp: lock_inv_def)

lemma lock_inv_step:
  assumes "lock_inv l1 l2 c" and "l1 \<noteq> l2" and "step c c'"
  shows "lock_inv l1 l2 c'"
  using assms(3)
proof cases
  case (first a p a' p' b)
  with assms(1,2) show ?thesis by (auto intro: lock_inv_first)
next
  case (second b p b' p' a)
  with assms(1) have "lock_inv l1 l2 (b, a, p)" by (simp add: lock_inv_sym)
  from lock_inv_first[OF this assms(2) second(3)] second show ?thesis
    by (simp add: lock_inv_sym)
qed

lemma call_step_enabled:
  "call_step t p \<noteq> None \<longleftrightarrow>
     (t_pc t = Acquire1 \<and> walletLocks p (lock1 t) \<noteq> Some True) \<or>
     (t_pc t = Acquire2 \<and> walletLocks p (lock2 t) \<noteq> Some True) \<or>
     t_pc t = Body \<or> t_pc t = Release2 \<or> t_pc t = Release1"
  by (cases "t_pc t") (auto simp: call_step_def split: prod.splits)

lemma lock_inv_progress:
  assumes inv: "lock_inv l1 l2 (a, b, p)" and nr: "t_pc a \<noteq> Returned \<or> t_pc b \<noteq> Returned"
  shows "\<exists>c'. step (a, b, p) c'"
proof -
  from inv have l: "lock1 a = l1" "lock2 a = l2" "lock1 b = l1" "lock2 b = l2"
    and h1: "(walletLocks p l1 = Some True) = (holds1 (t_pc a) \<or> holds1 (t_pc b))"
    and h2: "(walletLocks p l2 = Some True) = (holds2 (t_pc a) \<or> holds2 (t_pc b))"
    and ex: "\<not> (holds1 (t_pc a) \<and> holds1 (t_pc b))"
    by (simp_all add: lock_inv_def)
  have "call_step a p \<noteq> None \<or> call_step b p \<noteq> None"
    unfolding call_step_enabled l using h1 h2 ex nr
    by (cases "t_pc a"; cases "t_pc b") simp_all
  then show ?thesis
    by (auto intro: step.intros)
qed

lemma lock_inv_init:
  assumes "x \<noteq> y" and "idle p"
  shows "lock_inv (min x y) (max x y) (called x y u1 a1 d1, called y x u2 a2 d2, p)"
proof -
  have "t_pc (called x y u1 a1 d1) = Acquire1" "t_pc (called y x u2 a2 d2) = Acquire1"
    by (simp_all add: called_def)
  moreover have "lock1 (called y x u2 a2 d2) = min x y" "lock2 (called y x u2 a2 d2) = max x y"
    by (simp_all add: locks_called min.commute max.commute)
  ultimately show ?thesis
    using assms(2) by (simp add: lock_inv_def locks_called idle_def)
qed

lemma steps_invariant:
  assumes "x \<noteq> y" and "idle p"
    and "(step ^^ n) (called x y u1 a1 d1, called y x u2 a2 d2, p) c"
  shows "lock_inv (min x y) (max x y) c \<and>
         (case c of (a, b, q) \<Rightarrow> steps_left (t_pc a) + steps_left (t_pc b) + n = 10)"
  using assms(3)
proof (induction n arbitrary: c)
  case 0
  then have "c = (called x y u1 a1 d1, called y x u2 a2 d2, p)" by simp
  moreover have "t_pc (called x y u1 a1 d1) = Acquire1" "t_pc (called y x u2 a2 d2) = Acquire1"
    by (simp_all add: called_def)
  ultimately show ?case using lock_inv_init[OF assms(1,2), of u1 a1 d1 u2 a2 d2] by simp
next
  case (Suc n)
  then obtain m where m: "(step ^^ n) (called x y u1 a1 d1, called y x u2 a2 d2, p) m"
    and s: "step m c" by auto
  from Suc.IH[OF m] have inv: "lock_inv (min x y) (max x y) m"
    and cnt: "(case m of (a, b, q) \<Rightarrow> steps_left (t_pc a) + steps_left (t_pc b) + n = 10)"
    by simp_all
  from assms(1) have ne: "min x y \<noteq> max x y" by (auto simp: min_def max_def)
  from lock_inv_step[OF inv ne s] have "lock_inv (min x y) (max x y) c" .
  moreover from s cnt have "(case c of (a, b, q) \<Rightarrow> steps_left (t_pc a) + steps_left (t_pc b) + Suc n = 10)"
    by cases (auto dest: call_step_left)
  ultimately show ?case by simp
qed

lemma steps_left_0: "steps_left x = 0 \<longleftrightarrow> x = Returned"
  by (cases x) simp_all

text \<open>A call that runs alone takes five steps and is \<^verbatim>\<open>transfer\<close>; where one waits for ever, so does the other.\<close>

lemma call_run_alone:
  "map_option (\<lambda>(c, q). (t_pc c, t_result c, q)) (call_run 5 (called f t u a d) p) =
   map_option (\<lambda>(r, q). (Returned, Some r, q)) (transfer p f t u a d)"
proof (cases "f = t")
  case True
  then show ?thesis
    by (simp add: transfer_self eval_nat_numeral call_step_def called_def lock1_def lock2_def)
next
  case False
  obtain r s where b: "transfer_locked (db p) f t u a d = (r, s)"
    by (cases "transfer_locked (db p) f t u a d")
  show ?thesis
  proof (cases "walletLocks p f = Some True \<or> walletLocks p t = Some True")
    case True
    with False have "transfer p f t u a d = None"
      by (auto simp: transfer_def runExclusive_def getWalletLock_def Let_def on_store_def
          split: option.splits)
    moreover from True False have "call_run 5 (called f t u a d) p = None"
      by (auto simp: eval_nat_numeral call_step_def called_def lock1_def lock2_def)
    ultimately show ?thesis by simp
  next
    case free: False
    with False b show ?thesis
      by (auto simp: transfer_eq eval_nat_numeral call_step_def called_def lock1_def lock2_def
          fun_upd_twist)
  qed
qed

lemma first_step_takes_smaller:
  assumes "idle p" and "step (called x y u1 a1 d1, called y x u2 a2 d2, p) c"
  shows "walletLocks (snd (snd c)) = (walletLocks p)(min x y \<mapsto> True)"
  using assms(2)
proof cases
  case (first a' p')
  then show ?thesis
    using locks_called(1)[of x y u1 a1 d1]
    by (auto simp: call_step_def called_def split: if_splits)
next
  case (second b' p')
  then show ?thesis
    using locks_called(1)[of y x u2 a2 d2]
    by (auto simp: call_step_def called_def min.commute split: if_splits)
qed

text \<open>
  C8. Two calls of \<^verbatim>\<open>transfer\<close> between the same two different wallets, one in each
  direction, started when no mutex is held and interleaved in any way. For both calls
  the first mutex is that of the smaller wallet id (in the order of strings) and the
  second that of the larger id, and the first step of the run, whichever call takes it,
  takes the mutex of the smaller id and nothing else. After any number of steps the
  mutex of the smaller id is held exactly when one of the calls is between its first
  acquisition and its last release, the mutex of the larger id exactly when one of them
  is between its second acquisition and the release of it, and the two calls are never
  both past their first acquisition. As long as fewer than ten steps have been taken
  one of the calls can take a step, no run is longer than ten steps, and after ten steps
  both calls have returned with a result: neither waits for ever. Each of the two
  calls, run alone for its five steps, is \<^verbatim>\<open>transfer\<close>: same result, same store, same lock
  table. (Wallet ids are compared byte by byte, which is the order of JavaScript's
  \<^verbatim>\<open>sort()\<close> on the ids the database draws.)
\<close>

theorem transfers_never_deadlock:
  assumes "x \<noteq> y" and "idle p"
    and "(step ^^ n) (called x y u1 a1 d1, called y x u2 a2 d2, p) c"
  shows "lock1 (called x y u1 a1 d1) = min x y \<and> lock1 (called y x u2 a2 d2) = min x y \<and>
         lock2 (called x y u1 a1 d1) = max x y \<and> lock2 (called y x u2 a2 d2) = max x y \<and>
         (n = 1 \<longrightarrow> walletLocks (snd (snd c)) = (walletLocks p)(min x y \<mapsto> True)) \<and>
         (case c of (a, b, q) \<Rightarrow>
            (walletLocks q (min x y) = Some True) = (holds1 (t_pc a) \<or> holds1 (t_pc b)) \<and>
            (walletLocks q (max x y) = Some True) = (holds2 (t_pc a) \<or> holds2 (t_pc b)) \<and>
            \<not> (holds1 (t_pc a) \<and> holds1 (t_pc b))) \<and>
         n \<le> 10 \<and> (both_returned c \<longleftrightarrow> n = 10) \<and> (n < 10 \<longrightarrow> (\<exists>c'. step c c')) \<and>
         map_option (\<lambda>(c, q). (t_pc c, t_result c, q)) (call_run 5 (called x y u1 a1 d1) p) =
           map_option (\<lambda>(r, q). (Returned, Some r, q)) (transfer p x y u1 a1 d1) \<and>
         map_option (\<lambda>(c, q). (t_pc c, t_result c, q)) (call_run 5 (called y x u2 a2 d2) p) =
           map_option (\<lambda>(r, q). (Returned, Some r, q)) (transfer p y x u2 a2 d2)"
proof -
  obtain a b q where c: "c = (a, b, q)" by (cases c)
  from steps_invariant[OF assms] c have inv: "lock_inv (min x y) (max x y) (a, b, q)"
    and cnt: "steps_left (t_pc a) + steps_left (t_pc b) + n = 10" by simp_all
  from cnt have n: "n \<le> 10" by simp
  from inv have res: "steps_left (t_pc a) \<le> 2 \<longrightarrow> t_result a \<noteq> None"
    "steps_left (t_pc b) \<le> 2 \<longrightarrow> t_result b \<noteq> None"
    and held: "(walletLocks q (min x y) = Some True) = (holds1 (t_pc a) \<or> holds1 (t_pc b))"
      "(walletLocks q (max x y) = Some True) = (holds2 (t_pc a) \<or> holds2 (t_pc b))"
      "\<not> (holds1 (t_pc a) \<and> holds1 (t_pc b))"
    by (simp_all add: lock_inv_def)
  have br: "both_returned c \<longleftrightarrow> n = 10"
  proof
    assume "both_returned c"
    with c cnt show "n = 10" by (simp add: both_returned_def)
  next
    assume "n = 10"
    with cnt have "t_pc a = Returned" "t_pc b = Returned" by (simp_all add: steps_left_0)
    with res c show "both_returned c" by (simp add: both_returned_def)
  qed
  have pr: "n < 10 \<longrightarrow> (\<exists>c'. step c c')"
  proof
    assume "n < 10"
    with cnt have "t_pc a \<noteq> Returned \<or> t_pc b \<noteq> Returned" by auto
    from lock_inv_progress[OF inv this] c show "\<exists>c'. step c c'" by simp
  qed
  have fs: "n = 1 \<longrightarrow> walletLocks (snd (snd c)) = (walletLocks p)(min x y \<mapsto> True)"
    using assms(3) first_step_takes_smaller[OF assms(2), of x y u1 a1 d1 u2 a2 d2 c] by auto
  show ?thesis
    using n br pr fs held c
    by (simp add: locks_called min.commute max.commute call_run_alone)
qed

theorem transfers_never_deadlock_witness:
  "\<exists>c. (step ^^ 10) (called ''A'' ''B'' ''bob'' 200 None, called ''B'' ''A'' ''alice'' 100 None,
                       ledger 50000 50000 []) c \<and> both_returned c \<and>
        walletLocks (snd (snd c)) ''A'' \<noteq> Some True \<and> walletLocks (snd (snd c)) ''B'' \<noteq> Some True"
proof -
  let ?c0 = "(called ''A'' ''B'' ''bob'' 200 None, called ''B'' ''A'' ''alice'' 100 None,
              ledger 50000 50000 [])"
  have ne: "''A'' \<noteq> ''B''" by simp
  have run: "k \<le> 10 \<Longrightarrow> \<exists>c. (step ^^ k) ?c0 c" for k
  proof (induction k)
    case 0
    show ?case by auto
  next
    case (Suc k)
    then obtain c where c: "(step ^^ k) ?c0 c" by auto
    from transfers_never_deadlock[OF ne ledger_simps(3) c] Suc.prems
    obtain c' where "step c c'" by auto
    with c have "(step ^^ Suc k) ?c0 c'" by (rule relpowp_Suc_I)
    then show ?case by blast
  qed
  then obtain c where c: "(step ^^ 10) ?c0 c" by blast
  obtain a b q where q: "c = (a, b, q)" by (cases c)
  from transfers_never_deadlock[OF ne ledger_simps(3) c] q
  have "both_returned c" 
    "(walletLocks q (min ''A'' ''B'') = Some True) = (holds1 (t_pc a) \<or> holds1 (t_pc b))"
    "(walletLocks q (max ''A'' ''B'') = Some True) = (holds2 (t_pc a) \<or> holds2 (t_pc b))"
    by simp_all
  then have "both_returned c \<and>
        walletLocks (snd (snd c)) ''A'' \<noteq> Some True \<and> walletLocks (snd (snd c)) ''B'' \<noteq> Some True"
    using q by (auto simp: both_returned_def min_def max_def)
  with c show ?thesis by blast
qed

end
